theory Spec2Isabelle
  imports Main "HOL-Library.AList"
begin

section \<open>Data model\<close>

text \<open>
  The user file store of \<^verbatim>\<open>src/stores/userFileStore.ts\<close> keeps JavaScript objects that
  are mutated in place and handed around by reference. The model therefore has an explicit
  heap: a reference is an index into a list of objects, allocation appends to the list, and
  a method takes the receiver \<open>this\<close> as a reference together with the world it runs in.
\<close>

type_synonym ref = nat

record path_details =
  pd_directory :: string
  pd_fullFilename :: string
  pd_filename :: string
  pd_suffix :: "string option"

definition after_last :: "char \<Rightarrow> string \<Rightarrow> string" where
  "after_last c s = rev (takeWhile (\<lambda>x. x \<noteq> c) (rev s))"

definition before_last :: "char \<Rightarrow> string \<Rightarrow> string" where
  "before_last c s = rev (tl (dropWhile (\<lambda>x. x \<noteq> c) (rev s)))"

text \<open>
  Modelled from the spec: \<^verbatim>\<open>getPathDetails\<close> of \<^verbatim>\<open>@/utils/formatUtil\<close> is not among the
  sources. The spec describes it as the path utility that splits a slash-delimited relative
  path into directory, filename without suffix and suffix, with a null suffix when the
  filename has no dot-qualified extension; the class comment of \<^verbatim>\<open>UserFile\<close> gives
  \<^verbatim>\<open>'dir/file.txt'\<close> \<open>\<mapsto>\<close> \<^verbatim>\<open>'dir'\<close>, \<^verbatim>\<open>'file.txt'\<close>, \<^verbatim>\<open>'file'\<close>, \<^verbatim>\<open>'txt'\<close>. No theorem below
  depends on how the split is computed.
\<close>

definition getPathDetails :: "string \<Rightarrow> path_details" where
  "getPathDetails p =
     (let dir = (if CHR ''/'' \<in> set p then before_last (CHR ''/'') p else []);
          full = after_last (CHR ''/'') p;
          dotted = (CHR ''.'' \<in> set full)
      in \<lparr> pd_directory = dir,
           pd_fullFilename = full,
           pd_filename = (if dotted then before_last (CHR ''.'') full else full),
           pd_suffix = (if dotted then Some (after_last (CHR ''.'') full) else None) \<rparr>)"

text \<open>
  The class \<^verbatim>\<open>UserFile\<close>. JavaScript numbers holding timestamps and byte counts are
  integers; \<^verbatim>\<open>string | null\<close> is \<open>string option\<close>. The field \<^verbatim>\<open>size\<close> is called
  \<open>size_bytes\<close> here.
\<close>

record UserFile =
  directory :: string
  fullFilename :: string
  filename :: string
  suffix :: "string option"
  isLoading :: bool
  content :: "string option"
  originalContent :: "string option"
  path :: string
  lastModified :: int
  size_bytes :: int

definition new_UserFile :: "string \<Rightarrow> int \<Rightarrow> int \<Rightarrow> UserFile" where
  "new_UserFile p lm sz =
     (let details = getPathDetails p
      in \<lparr> directory = pd_directory details,
           fullFilename = pd_fullFilename details,
           filename = pd_filename details,
           suffix = pd_suffix details,
           isLoading = False,
           content = None,
           originalContent = None,
           path = p,
           lastModified = lm,
           size_bytes = sz \<rparr>)"

definition updatePath_obj :: "string \<Rightarrow> UserFile \<Rightarrow> UserFile" where
  "updatePath_obj newPath f =
     (let details = getPathDetails newPath
      in f\<lparr> path := newPath,
            directory := pd_directory details,
            fullFilename := pd_fullFilename details,
            filename := pd_filename details,
            suffix := pd_suffix details \<rparr>)"

text \<open>\<^verbatim>\<open>Date.now()\<close> is the parameter \<open>now\<close>.\<close>

definition createTemporary_obj :: "int \<Rightarrow> string \<Rightarrow> UserFile" where
  "createTemporary_obj now p = new_UserFile p now (- 1)"

definition isTemporary :: "UserFile \<Rightarrow> bool" where
  "isTemporary f \<longleftrightarrow> size_bytes f = - 1"

definition isPersisted :: "UserFile \<Rightarrow> bool" where
  "isPersisted f \<longleftrightarrow> \<not> isTemporary f"

definition key :: "UserFile \<Rightarrow> string" where
  "key f = path f"

definition isLoaded :: "UserFile \<Rightarrow> bool" where
  "isLoaded f \<longleftrightarrow> content f \<noteq> None"

definition isModified :: "UserFile \<Rightarrow> bool" where
  "isModified f \<longleftrightarrow> content f \<noteq> originalContent f"

definition unload_obj :: "UserFile \<Rightarrow> UserFile" where
  "unload_obj f = f\<lparr> content := None, originalContent := None, isLoading := False \<rparr>"

section \<open>The remote API\<close>

text \<open>
  The module \<^verbatim>\<open>@/scripts/api\<close> is an external collaborator. A call either rejects with an
  error or resolves to a response; what it answers is a parameter of every operation. The
  body of a store or move response is \<^verbatim>\<open>string | UserDataFullInfo\<close>, of which the code
  reads \<^verbatim>\<open>modified\<close> and \<^verbatim>\<open>size\<close>.
\<close>

datatype error = Error string | TypeError string

record UserDataFullInfo =
  info_modified :: int
  info_size :: int

datatype json_body = JsonString string | JsonObject UserDataFullInfo

record response =
  status :: nat
  statusText :: string
  body_text :: string
  json :: json_body

record store_options =
  overwrite :: bool
  throwOnError :: bool
  full_info :: bool

record entry =
  e_path :: string
  e_type :: string
  e_size :: "int option"
  e_modified :: "int option"

record api =
  listUserDataV2 :: "string \<Rightarrow> error + entry list"
  getUserData :: "string \<Rightarrow> error + response"
  storeUserData :: "string \<Rightarrow> string option \<Rightarrow> store_options \<Rightarrow> error + response"
  deleteUserData :: "string \<Rightarrow> error + response"
  moveUserData :: "string \<Rightarrow> string \<Rightarrow> error + response"

text \<open>The remote calls issued so far are recorded, in order, in the world.\<close>

datatype api_call =
    ListUserDataV2 string
  | GetUserData string
  | StoreUserData string "string option" store_options
  | DeleteUserData string
  | MoveUserData string string

section \<open>The world: heap, store state and call log\<close>

text \<open>
  \<open>userFilesByPath\<close> holds the own properties of the store's
  \<^verbatim>\<open>Record<string, UserFile>\<close> in the order of their creation, each with the reference it
  holds; how the object is read is \<open>get_property\<close> and \<open>own_keys\<close> below. \<open>userDirs\<close> is the
  store's \<^verbatim>\<open>Set<string>\<close>.
\<close>

record world =
  heap :: "UserFile list"
  userFilesByPath :: "(string \<times> ref) list"
  userDirs :: "string set"
  calls :: "api_call list"

definition modify :: "ref \<Rightarrow> (UserFile \<Rightarrow> UserFile) \<Rightarrow> world \<Rightarrow> world" where
  "modify r g w = w\<lparr> heap := (heap w)[r := g (heap w ! r)] \<rparr>"

definition remote :: "api_call \<Rightarrow> world \<Rightarrow> world" where
  "remote c w = w\<lparr> calls := calls w @ [c] \<rparr>"

definition alloc :: "UserFile \<Rightarrow> world \<Rightarrow> world \<times> ref" where
  "alloc f w = (w\<lparr> heap := heap w @ [f] \<rparr>, length (heap w))"

section \<open>Error messages\<close>

definition digit_char :: "nat \<Rightarrow> char" where
  "digit_char d = char_of (48 + d)"

fun show_nat :: "nat \<Rightarrow> string" where
  "show_nat n = (if n < 10 then [digit_char n] else show_nat (n div 10) @ [digit_char (n mod 10)])"

declare show_nat.simps [simp del]

text \<open>
  The three template literals
  \<^verbatim>\<open>`Failed to <verb> file '${this.path}': ${resp.status} ${resp.statusText}`\<close>.
\<close>

definition failed_message :: "string \<Rightarrow> string \<Rightarrow> response \<Rightarrow> string" where
  "failed_message verb p resp =
     ''Failed to '' @ verb @ '' file '' @ [CHR 0x27] @ p @ [CHR 0x27] @ '': ''
       @ show_nat (status resp) @ '' '' @ statusText resp"

section \<open>Entity lifecycle: the methods of \<^verbatim>\<open>UserFile\<close>\<close>

definition updatePath :: "string \<Rightarrow> ref \<Rightarrow> world \<Rightarrow> world" where
  "updatePath newPath this w = modify this (updatePath_obj newPath) w"

definition createTemporary :: "int \<Rightarrow> string \<Rightarrow> world \<Rightarrow> world \<times> ref" where
  "createTemporary now p w = alloc (createTemporary_obj now p) w"

definition load :: "api \<Rightarrow> bool \<Rightarrow> ref \<Rightarrow> world \<Rightarrow> world \<times> (error + ref)" where
  "load a force this w =
     (let f = heap w ! this in
      if isTemporary f \<or> (\<not> force \<and> isLoaded f) then (w, Inr this)
      else
        let w1 = modify this (\<lambda>f. f\<lparr> isLoading := True \<rparr>) w;
            w2 = remote (GetUserData (path f)) w1
        in case getUserData a (path f) of
             Inl err \<Rightarrow> (w2, Inl err)
           | Inr resp \<Rightarrow>
               if status resp \<noteq> 200 then
                 (w2, Inl (Error (failed_message ''load'' (path f) resp)))
               else
                 let w3 = modify this (\<lambda>f. f\<lparr> content := Some (body_text resp) \<rparr>) w2;
                     w4 = modify this (\<lambda>f. f\<lparr> originalContent := content f \<rparr>) w3;
                     w5 = modify this (\<lambda>f. f\<lparr> isLoading := False \<rparr>) w4
                 in (w5, Inr this))"

definition unload :: "ref \<Rightarrow> world \<Rightarrow> world" where
  "unload this w = modify this unload_obj w"

definition apply_full_info :: "json_body \<Rightarrow> UserFile \<Rightarrow> UserFile" where
  "apply_full_info updatedFile f =
     (case updatedFile of
        JsonObject info \<Rightarrow> f\<lparr> lastModified := info_modified info, size_bytes := info_size info \<rparr>
      | JsonString s \<Rightarrow> f)"

definition save :: "api \<Rightarrow> bool \<Rightarrow> ref \<Rightarrow> world \<Rightarrow> world \<times> (error + ref)" where
  "save a force this w =
     (let f = heap w ! this in
      if isPersisted f \<and> \<not> isModified f \<and> \<not> force then (w, Inr this)
      else
        let opts = \<lparr> overwrite = isPersisted f, throwOnError = True, full_info = True \<rparr>;
            w1 = remote (StoreUserData (path f) (content f) opts) w
        in case storeUserData a (path f) (content f) opts of
             Inl err \<Rightarrow> (w1, Inl err)
           | Inr resp \<Rightarrow>
               let w2 = modify this (apply_full_info (json resp)) w1;
                   w3 = modify this (\<lambda>f. f\<lparr> originalContent := content f \<rparr>) w2
               in (w3, Inr this))"

definition saveAs :: "api \<Rightarrow> int \<Rightarrow> string \<Rightarrow> ref \<Rightarrow> world \<Rightarrow> world \<times> (error + ref)" where
  "saveAs a now newPath this w =
     (let (w1, tempFile) =
            (if isTemporary (heap w ! this) then (w, this) else createTemporary now newPath w);
          w2 = modify tempFile (\<lambda>f. f\<lparr> content := content (heap w1 ! this) \<rparr>) w1
      in case save a False tempFile w2 of
           (w3, Inl err) \<Rightarrow> (w3, Inl err)
         | (w3, Inr _) \<Rightarrow> (w3, Inr tempFile))"

definition delete :: "api \<Rightarrow> ref \<Rightarrow> world \<Rightarrow> world \<times> (error + unit)" where
  "delete a this w =
     (let f = heap w ! this in
      if isTemporary f then (w, Inr ())
      else
        let w1 = remote (DeleteUserData (path f)) w
        in case deleteUserData a (path f) of
             Inl err \<Rightarrow> (w1, Inl err)
           | Inr resp \<Rightarrow>
               if status resp \<noteq> 204 then
                 (w1, Inl (Error (failed_message ''delete'' (path f) resp)))
               else (w1, Inr ()))"

definition rename :: "api \<Rightarrow> string \<Rightarrow> ref \<Rightarrow> world \<Rightarrow> world \<times> (error + ref)" where
  "rename a newPath this w =
     (let f = heap w ! this in
      if isTemporary f then (updatePath newPath this w, Inr this)
      else
        let w1 = remote (MoveUserData (path f) newPath) w
        in case moveUserData a (path f) newPath of
             Inl err \<Rightarrow> (w1, Inl err)
           | Inr resp \<Rightarrow>
               if status resp \<noteq> 200 then
                 (w1, Inl (Error (failed_message ''rename'' (path f) resp)))
               else
                 let w2 = updatePath newPath this w1;
                     w3 = modify this (apply_full_info (json resp)) w2
                 in (w3, Inr this))"

section \<open>Collection reconciler: \<^verbatim>\<open>syncEntitiesV2\<close> and \<^verbatim>\<open>syncFiles\<close>\<close>

text \<open>The operator \<^verbatim>\<open>??\<close>.\<close>

definition coalesce :: "'a option \<Rightarrow> 'a \<Rightarrow> 'a" where
  "coalesce x d = (case x of Some v \<Rightarrow> v | None \<Rightarrow> d)"

subsection \<open>The collection is a plain JavaScript object\<close>

text \<open>
  \<open>userFilesByPath\<close> starts as the object literal \<^verbatim>\<open>{}\<close>, so its prototype is
  \<^verbatim>\<open>Object.prototype\<close>. Reading \<^verbatim>\<open>entityByPath[key]\<close> yields the own property of that
  name if there is one, else the member of \<^verbatim>\<open>Object.prototype\<close> of that name if there is
  one, else \<^verbatim>\<open>undefined\<close>. The members are those of ECMAScript, with its Annex B; each
  of them is a function or an object, hence truthy.
\<close>

definition object_prototype_members :: "string list" where
  "object_prototype_members =
     [''constructor'', ''__proto__'', ''hasOwnProperty'', ''isPrototypeOf'',
      ''propertyIsEnumerable'', ''toLocaleString'', ''toString'', ''valueOf'',
      ''__defineGetter__'', ''__defineSetter__'', ''__lookupGetter__'', ''__lookupSetter__'']"

datatype property = Undefined | Own ref | Inherited string

definition get_property :: "(string \<times> ref) list \<Rightarrow> string \<Rightarrow> property" where
  "get_property entityByPath k =
     (case map_of entityByPath k of
        Some r \<Rightarrow> Own r
      | None \<Rightarrow> if k \<in> set object_prototype_members then Inherited k else Undefined)"

text \<open>
  \<^verbatim>\<open>Object.keys\<close> and \<^verbatim>\<open>Object.values\<close> list the own properties with the array
  indices first, in ascending numeric order, and then the other keys in the order of their
  creation. An array index is the canonical decimal string of an integer below \<^verbatim>\<open>2^32 - 1\<close>.
\<close>

definition is_digit :: "char \<Rightarrow> bool" where
  "is_digit c \<longleftrightarrow> c \<in> set ''0123456789''"

definition read_nat :: "string \<Rightarrow> nat" where
  "read_nat k = foldl (\<lambda>n c. 10 * n + (of_char c - 48)) 0 k"

definition array_index :: "string \<Rightarrow> nat option" where
  "array_index k =
     (if k \<noteq> [] \<and> list_all is_digit k \<and> (k = ''0'' \<or> hd k \<noteq> CHR ''0'')
         \<and> read_nat k < 4294967295
      then Some (read_nat k) else None)"

definition own_keys :: "(string \<times> ref) list \<Rightarrow> string list" where
  "own_keys entityByPath =
     (let ks = map fst entityByPath
      in sort_key (\<lambda>k. coalesce (array_index k) 0) (filter (\<lambda>k. array_index k \<noteq> None) ks)
         @ filter (\<lambda>k. array_index k = None) ks)"

subsection \<open>The callbacks\<close>

text \<open>
  \<^verbatim>\<open>syncEntitiesV2\<close> is generic in three callbacks. The value it hands to \<^verbatim>\<open>exclude\<close>
  and \<^verbatim>\<open>updateEntity\<close> is whatever the lookup found: an entity or a member of
  \<^verbatim>\<open>Object.prototype\<close>. So each of the two is given by what it does on an entity and by
  what it does on such a member: \<open>exclude_member\<close> is the answer of \<^verbatim>\<open>exclude\<close>, and
  \<open>updateEntity_member\<close> tells whether \<^verbatim>\<open>updateEntity\<close> returns (\<open>None\<close>) or throws.
  What \<^verbatim>\<open>updateEntity\<close> writes into the member itself is not part of the world.
\<close>

record callbacks =
  createEntity :: "entry \<Rightarrow> UserFile"
  updateEntity :: "UserFile \<Rightarrow> entry \<Rightarrow> UserFile"
  exclude :: "UserFile \<Rightarrow> bool"
  exclude_member :: "string \<Rightarrow> bool"
  updateEntity_member :: "string \<Rightarrow> entry \<Rightarrow> error option"

subsection \<open>The loops\<close>

text \<open>The body of the loop that collects directory paths into \<^verbatim>\<open>dirSet\<close>.\<close>

definition track_directory :: "entry \<Rightarrow> string set \<Rightarrow> string set" where
  "track_directory e dirSet = (if e_type e = ''directory'' then insert (e_path e) dirSet else dirSet)"

text \<open>
  The body of the loop over the file entries. \<^verbatim>\<open>createEntity\<close> returns a new object,
  which is allocated; \<^verbatim>\<open>updateEntity\<close> mutates the existing object in place. The second
  component is the exception thrown, if any.
\<close>

definition add_or_update :: "callbacks \<Rightarrow> entry \<Rightarrow> world \<Rightarrow> world \<times> error option" where
  "add_or_update cb fileEntry w =
     (let k = e_path fileEntry in
      case get_property (userFilesByPath w) k of
        Undefined \<Rightarrow>
          let (w1, r) = alloc (createEntity cb fileEntry) w
          in (w1\<lparr> userFilesByPath := AList.update k r (userFilesByPath w1) \<rparr>, None)
      | Own existing \<Rightarrow>
          if \<not> exclude cb (heap w ! existing)
          then (modify existing (\<lambda>f. updateEntity cb f fileEntry) w, None)
          else (w, None)
      | Inherited member \<Rightarrow>
          if \<not> exclude_member cb member
          then (w, updateEntity_member cb member fileEntry)
          else (w, None))"

text \<open>The loop itself: an exception ends it.\<close>

fun add_or_update_all :: "callbacks \<Rightarrow> entry list \<Rightarrow> world \<Rightarrow> world \<times> error option" where
  "add_or_update_all cb [] w = (w, None)"
| "add_or_update_all cb (fileEntry # files) w =
     (case add_or_update cb fileEntry w of
        (w1, Some err) \<Rightarrow> (w1, Some err)
      | (w1, None) \<Rightarrow> add_or_update_all cb files w1)"

text \<open>
  The body of the loop over \<^verbatim>\<open>Object.keys(entityByPath)\<close>. The keys are own keys, in a
  snapshot taken before the loop, and only the visited key is ever deleted, so the lookup
  finds an entity at every key the loop visits; the \<open>None\<close> branch only makes the function
  total.
\<close>

definition remove_if_absent :: "callbacks \<Rightarrow> entry list \<Rightarrow> string \<Rightarrow> world \<Rightarrow> world" where
  "remove_if_absent cb files p w =
     (case map_of (userFilesByPath w) p of
        None \<Rightarrow> w
      | Some ent \<Rightarrow>
          if exclude cb (heap w ! ent) then w
          else if \<not> list_ex (\<lambda>e. e_path e = p) files
          then w\<lparr> userFilesByPath := AList.delete p (userFilesByPath w) \<rparr>
          else w)"

text \<open>
  \<^verbatim>\<open>syncEntitiesV2\<close>, with \<^verbatim>\<open>entityByPath\<close> and \<^verbatim>\<open>dirSet\<close> being the store's own
  \<open>userFilesByPath\<close> and \<open>userDirs\<close>, as \<^verbatim>\<open>syncFiles\<close> passes them. The optional
  argument \<^verbatim>\<open>dirSet\<close> is the flag \<open>dirSet_given\<close>. A resolved promise is \<open>None\<close>, a
  rejected one \<open>Some err\<close>.
\<close>

definition syncEntitiesV2 ::
  "api \<Rightarrow> string \<Rightarrow> callbacks \<Rightarrow> bool \<Rightarrow> world \<Rightarrow> world \<times> error option" where
  "syncEntitiesV2 a p cb dirSet_given w =
     (let w0 = remote (ListUserDataV2 p) w in
      case listUserDataV2 a p of
        Inl err \<Rightarrow> (w0, Some err)
      | Inr entries \<Rightarrow>
          let w1 = (if dirSet_given
                    then w0\<lparr> userDirs := fold track_directory entries {} \<rparr>
                    else w0);
              files = filter (\<lambda>e. e_type e = ''file'') entries
          in case add_or_update_all cb files w1 of
               (w2, Some err) \<Rightarrow> (w2, Some err)
             | (w2, None) \<Rightarrow>
                 (fold (remove_if_absent cb files) (own_keys (userFilesByPath w2)) w2, None))"

text \<open>
  The callbacks of \<^verbatim>\<open>syncFiles\<close>. On a member of \<^verbatim>\<open>Object.prototype\<close>, \<^verbatim>\<open>() => false\<close>
  does not exclude, and the update callback, after its two assignments, calls
  \<^verbatim>\<open>existingFile.unload()\<close>, which no such member has: a \<^verbatim>\<open>TypeError\<close>.
\<close>

definition syncFiles_create :: "entry \<Rightarrow> UserFile" where
  "syncFiles_create entry =
     new_UserFile (e_path entry) (coalesce (e_modified entry) 0) (coalesce (e_size entry) 0)"

definition syncFiles_update :: "UserFile \<Rightarrow> entry \<Rightarrow> UserFile" where
  "syncFiles_update existingFile entry =
     unload_obj (existingFile\<lparr>
       lastModified := coalesce (e_modified entry) (lastModified existingFile),
       size_bytes := coalesce (e_size entry) (size_bytes existingFile) \<rparr>)"

definition syncFiles_callbacks :: callbacks where
  "syncFiles_callbacks =
     \<lparr> createEntity = syncFiles_create,
       updateEntity = syncFiles_update,
       exclude = (\<lambda>_. False),
       exclude_member = (\<lambda>_. False),
       updateEntity_member =
         (\<lambda>member entry. Some (TypeError ''existingFile.unload is not a function'')) \<rparr>"

definition syncFiles :: "api \<Rightarrow> string \<Rightarrow> world \<Rightarrow> world \<times> error option" where
  "syncFiles a dir w = syncEntitiesV2 a dir syncFiles_callbacks True w"

text \<open>The store's derived views, except the tree (its builder is not among the sources).\<close>

definition userFiles :: "world \<Rightarrow> UserFile list" where
  "userFiles w =
     List.map_filter (\<lambda>k. map_option (\<lambda>r. heap w ! r) (map_of (userFilesByPath w) k))
       (own_keys (userFilesByPath w))"

definition modifiedFiles :: "world \<Rightarrow> UserFile list" where
  "modifiedFiles w = filter isModified (userFiles w)"

definition loadedFiles :: "world \<Rightarrow> UserFile list" where
  "loadedFiles w = filter isLoaded (userFiles w)"

section \<open>Notions used in the statements\<close>

text \<open>
  A well-formed world: the collection's keys are unique (it is an object), every key holds
  a live reference, and no object is stored under two keys. The store starts empty and only
  \<^verbatim>\<open>syncFiles\<close> writes to it, which keeps all three (lemmas \<open>wf_world_empty\<close> and
  \<open>wf_world_syncFiles\<close>).
\<close>

definition wf_world :: "world \<Rightarrow> bool" where
  "wf_world w \<longleftrightarrow>
     distinct (map fst (userFilesByPath w)) \<and>
     distinct (map snd (userFilesByPath w)) \<and>
     list_all (\<lambda>r. r < length (heap w)) (map snd (userFilesByPath w))"

text \<open>
  The value a listing reports for a path: the one of the last entry that carries the field,
  and a default when no entry does.
\<close>

definition reported :: "(entry \<Rightarrow> int option) \<Rightarrow> entry list \<Rightarrow> int \<Rightarrow> int" where
  "reported field es d =
     (case filter (\<lambda>e. field e \<noteq> None) es of
        [] \<Rightarrow> d
      | e # carrying \<Rightarrow> (case field (last (e # carrying)) of Some v \<Rightarrow> v | None \<Rightarrow> d))"

definition file_entries :: "entry list \<Rightarrow> entry list" where
  "file_entries entries = filter (\<lambda>e. e_type e = ''file'') entries"

definition entries_at :: "string \<Rightarrow> entry list \<Rightarrow> entry list" where
  "entries_at p entries = filter (\<lambda>e. e_path e = p) (file_entries entries)"

text \<open>The world right after a listing has resolved and the directory set was rebuilt.\<close>

definition listed_world :: "string \<Rightarrow> entry list \<Rightarrow> world \<Rightarrow> world" where
  "listed_world dir entries w =
     (remote (ListUserDataV2 dir) w)\<lparr> userDirs := fold track_directory entries {} \<rparr>"

text \<open>The file entries that the first loop gets through before it ends.\<close>

fun processed :: "callbacks \<Rightarrow> entry list \<Rightarrow> world \<Rightarrow> entry list" where
  "processed cb [] w = []"
| "processed cb (fileEntry # files) w =
     (case add_or_update cb fileEntry w of
        (w1, Some err) \<Rightarrow> []
      | (w1, None) \<Rightarrow> fileEntry # processed cb files w1)"

text \<open>The operations a caller can apply to an entity.\<close>

datatype operation =
    Load bool
  | Unload
  | Save bool
  | SaveAs string
  | Delete
  | Rename string
  | UpdatePath string

definition perform :: "api \<Rightarrow> int \<Rightarrow> operation \<Rightarrow> ref \<Rightarrow> world \<Rightarrow> world" where
  "perform a now op this w =
     (case op of
        Load force \<Rightarrow> fst (load a force this w)
      | Unload \<Rightarrow> unload this w
      | Save force \<Rightarrow> fst (save a force this w)
      | SaveAs newPath \<Rightarrow> fst (saveAs a now newPath this w)
      | Delete \<Rightarrow> fst (delete a this w)
      | Rename newPath \<Rightarrow> fst (rename a newPath this w)
      | UpdatePath newPath \<Rightarrow> updatePath newPath this w)"

definition is_save :: "operation \<Rightarrow> bool" where
  "is_save op = (case op of Save _ \<Rightarrow> True | SaveAs _ \<Rightarrow> True | _ \<Rightarrow> False)"

section \<open>Concrete inputs\<close>

definition offline :: api where
  "offline =
     \<lparr> listUserDataV2 = (\<lambda>p. Inl (Error ''offline'')),
       getUserData = (\<lambda>p. Inl (Error ''offline'')),
       storeUserData = (\<lambda>p c opts. Inl (Error ''offline'')),
       deleteUserData = (\<lambda>p. Inl (Error ''offline'')),
       moveUserData = (\<lambda>p q. Inl (Error ''offline'')) \<rparr>"

definition ok_json :: "json_body \<Rightarrow> response" where
  "ok_json j = \<lparr> status = 200, statusText = ''OK'', body_text = [], json = j \<rparr>"

definition full_info_456_200 :: json_body where
  "full_info_456_200 = JsonObject \<lparr> info_modified = 456, info_size = 200 \<rparr>"

definition file_entry :: "string \<Rightarrow> int \<Rightarrow> int \<Rightarrow> entry" where
  "file_entry p sz m = \<lparr> e_path = p, e_type = ''file'', e_size = Some sz, e_modified = Some m \<rparr>"

definition dir_entry :: "string \<Rightarrow> entry" where
  "dir_entry p = \<lparr> e_path = p, e_type = ''directory'', e_size = None, e_modified = None \<rparr>"

definition legacy_api :: api where
  "legacy_api = offline\<lparr> storeUserData := (\<lambda>p c opts. Inr (ok_json (JsonString p))) \<rparr>"

definition full_info_api :: api where
  "full_info_api =
     offline\<lparr> storeUserData := (\<lambda>p c opts. Inr (ok_json full_info_456_200)),
              moveUserData := (\<lambda>p q. Inr (ok_json full_info_456_200)) \<rparr>"


definition empty_world :: world where
  "empty_world = \<lparr> heap = [], userFilesByPath = [], userDirs = {}, calls = [] \<rparr>"

definition one_file :: "UserFile \<Rightarrow> world" where
  "one_file f = \<lparr> heap = [f], userFilesByPath = [], userDirs = {}, calls = [] \<rparr>"

definition persisted_world :: world where
  "persisted_world = one_file (new_UserFile ''file1.txt'' 123 100)"

definition modified_world :: world where
  "modified_world =
     one_file ((new_UserFile ''file1.txt'' 123 100)
       \<lparr> content := Some ''modified content'', originalContent := Some ''original content'' \<rparr>)"

definition loading_world :: world where
  "loading_world =
     one_file ((new_UserFile ''file1.txt'' 123 100)
       \<lparr> content := Some ''c'', originalContent := Some ''o'', isLoading := True \<rparr>)"

definition temporary_world :: world where
  "temporary_world = one_file ((createTemporary_obj 1000 ''a.txt'')\<lparr> content := Some ''text'' \<rparr>)"

definition listing_api :: "entry list \<Rightarrow> api" where
  "listing_api entries = offline\<lparr> listUserDataV2 := (\<lambda>p. Inr entries) \<rparr>"

definition ab_world :: world where
  "ab_world =
     \<lparr> heap = [(new_UserFile ''d/a'' 1 1)\<lparr> content := Some ''cached'', originalContent := Some ''cached'' \<rparr>,
               new_UserFile ''d/b'' 1 1],
       userFilesByPath = [(''d/a'', 0), (''d/b'', 1)],
       userDirs = {''d/old''},
       calls = [] \<rparr>"

definition bare_entry :: "string \<Rightarrow> entry" where
  "bare_entry p = \<lparr> e_path = p, e_type = ''file'', e_size = None, e_modified = None \<rparr>"

definition constructor_listing :: api where
  "constructor_listing = listing_api [file_entry ''constructor'' 1 1]"

section \<open>Basic facts about objects\<close>

lemma sel_new_UserFile [simp]:
  "path (new_UserFile p lm sz) = p"
  "lastModified (new_UserFile p lm sz) = lm"
  "size_bytes (new_UserFile p lm sz) = sz"
  "content (new_UserFile p lm sz) = None"
  "originalContent (new_UserFile p lm sz) = None"
  "isLoading (new_UserFile p lm sz) = False"
  by (simp_all add: new_UserFile_def Let_def)

text \<open>The example of the class comment.\<close>

lemma getPathDetails_example:
  "getPathDetails ''dir/file.txt'' =
     \<lparr> pd_directory = ''dir'', pd_fullFilename = ''file.txt'',
       pd_filename = ''file'', pd_suffix = Some ''txt'' \<rparr>"
  by (simp add: getPathDetails_def after_last_def before_last_def Let_def)

section \<open>Unload\<close>

text \<open>
  C9. For every entity in every state, \<^verbatim>\<open>unload()\<close> sets \<open>content\<close> and
  \<open>originalContent\<close> to null and \<open>isLoading\<close> to false, it has no failing branch (its
  result is the new world), and unloading twice leaves the same world as unloading once.
\<close>

theorem unload_clears_idempotent:
  "unload this (unload this w) = unload this w \<and>
   (this < length (heap w) \<longrightarrow>
      content (heap (unload this w) ! this) = None \<and>
      originalContent (heap (unload this w) ! this) = None \<and>
      isLoading (heap (unload this w) ! this) = False \<and>
      heap (unload this w) ! this = unload_obj (heap w ! this))"
  by (cases "this < length (heap w)")
     (simp_all add: unload_def modify_def unload_obj_def not_less list_update_beyond)

theorem unload_witness:
  "0 < length (heap loading_world) \<and>
   isLoading (heap loading_world ! 0) \<and>
   unload 0 (unload 0 loading_world) = unload 0 loading_world \<and>
   content (heap (unload 0 loading_world) ! 0) = None \<and>
   originalContent (heap (unload 0 loading_world) ! 0) = None \<and>
   \<not> isLoading (heap (unload 0 loading_world) ! 0)"
  using unload_clears_idempotent [of 0 loading_world]
  by (simp add: loading_world_def one_file_def unload_obj_def)

section \<open>Load\<close>



section \<open>Save\<close>

text \<open>
  C4. \<^verbatim>\<open>save()\<close> with \<open>force = false\<close> on a persisted, unmodified entity performs no
  remote call and returns the same reference, the world unchanged. On a modified or a
  temporary entity it performs exactly one remote store call, with \<open>overwrite\<close> equal to
  \<open>isPersisted\<close> as it was before the call; when that call resolves, \<^verbatim>\<open>save\<close> returns the
  receiver and \<open>isModified\<close> is false afterwards (when it rejects, \<^verbatim>\<open>save\<close> rejects with
  the same error).
\<close>

theorem save_calls_and_modified:
  assumes "this < length (heap w)"
  shows
    "(let f = heap w ! this;
          opts = \<lparr> overwrite = isPersisted f, throwOnError = True, full_info = True \<rparr>
      in (isPersisted f \<and> \<not> isModified f \<longrightarrow> save a False this w = (w, Inr this)) \<and>
         (isModified f \<or> isTemporary f \<longrightarrow>
            calls (fst (save a force this w)) =
              calls w @ [StoreUserData (path f) (content f) opts] \<and>
            (case storeUserData a (path f) (content f) opts of
               Inl err \<Rightarrow> snd (save a force this w) = Inl err
             | Inr resp \<Rightarrow>
                 snd (save a force this w) = Inr this \<and>
                 \<not> isModified (heap (fst (save a force this w)) ! this))))"
  using assms
  by (auto simp: save_def Let_def isPersisted_def isModified_def remote_def modify_def
      split: sum.splits)

theorem save_witness:
  "0 < length (heap modified_world) \<and>
   isModified (heap modified_world ! 0) \<and>
   calls (fst (save full_info_api False 0 modified_world)) =
     [StoreUserData ''file1.txt'' (Some ''modified content'')
        \<lparr> overwrite = True, throwOnError = True, full_info = True \<rparr>] \<and>
   snd (save full_info_api False 0 modified_world) = Inr 0 \<and>
   \<not> isModified (heap (fst (save full_info_api False 0 modified_world)) ! 0)"
  using save_calls_and_modified [of 0 modified_world full_info_api False]
  by (simp add: Let_def modified_world_def one_file_def isModified_def isPersisted_def
      isTemporary_def full_info_api_def offline_def)

section \<open>Rename\<close>

text \<open>
  C8. \<^verbatim>\<open>rename(newPath)\<close> on a temporary entity issues no remote call and returns the
  receiver; afterwards \<open>path\<close> is \<open>newPath\<close>, \<open>directory\<close>, \<open>fullFilename\<close>, \<open>filename\<close>
  and \<open>suffix\<close> are the parts of \<open>newPath\<close>, and every other field, every other object and
  the store are as before. On a persisted entity it issues one remote move; when the call
  rejects or answers with a status other than 200 it throws (for the status, the error
  whose message holds the old path, the status and the status text) and the entity is
  unchanged; on status 200 it returns the receiver with the five path fields updated and,
  when the response body is a metadata object, with \<open>lastModified\<close> and \<open>size\<close> taken from
  it (unchanged when the body is a string).
\<close>

theorem rename_behaviour:
  assumes "this < length (heap w)"
  shows
    "(let f = heap w ! this;
          w' = fst (rename a newPath this w);
          f' = heap w' ! this;
          details = getPathDetails newPath
      in (isTemporary f \<longrightarrow>
            rename a newPath this w =
              (w\<lparr> heap := (heap w)[this := updatePath_obj newPath f] \<rparr>, Inr this) \<and>
            calls w' = calls w \<and>
            path f' = newPath \<and>
            directory f' = pd_directory details \<and>
            fullFilename f' = pd_fullFilename details \<and>
            filename f' = pd_filename details \<and>
            suffix f' = pd_suffix details \<and>
            lastModified f' = lastModified f \<and>
            size_bytes f' = size_bytes f \<and>
            content f' = content f \<and>
            originalContent f' = originalContent f \<and>
            isLoading f' = isLoading f \<and>
            length (heap w') = length (heap w) \<and>
            (\<forall>r. r \<noteq> this \<longrightarrow> heap w' ! r = heap w ! r) \<and>
            userFilesByPath w' = userFilesByPath w \<and>
            userDirs w' = userDirs w) \<and>
         (isPersisted f \<longrightarrow>
            calls w' = calls w @ [MoveUserData (path f) newPath] \<and>
            (\<forall>err. moveUserData a (path f) newPath = Inl err \<longrightarrow>
               snd (rename a newPath this w) = Inl err \<and> heap w' = heap w) \<and>
            (\<forall>resp. moveUserData a (path f) newPath = Inr resp \<longrightarrow>
               (status resp \<noteq> 200 \<longrightarrow>
                  snd (rename a newPath this w) =
                    Inl (Error (''Failed to rename file '' @ [CHR 0x27] @ path f @ [CHR 0x27]
                                @ '': '' @ show_nat (status resp) @ '' '' @ statusText resp)) \<and>
                  heap w' = heap w \<and>
                  path f' = path f) \<and>
               (status resp = 200 \<longrightarrow>
                  snd (rename a newPath this w) = Inr this \<and>
                  heap w' =
                    (heap w)[this := apply_full_info (json resp) (updatePath_obj newPath f)] \<and>
                  path f' = newPath \<and>
                  directory f' = pd_directory details \<and>
                  fullFilename f' = pd_fullFilename details \<and>
                  filename f' = pd_filename details \<and>
                  suffix f' = pd_suffix details \<and>
                  content f' = content f \<and>
                  originalContent f' = originalContent f \<and>
                  isLoading f' = isLoading f \<and>
                  (\<forall>info. json resp = JsonObject info \<longrightarrow>
                     lastModified f' = info_modified info \<and>
                     size_bytes f' = info_size info) \<and>
                  (\<forall>s. json resp = JsonString s \<longrightarrow>
                     lastModified f' = lastModified f \<and>
                     size_bytes f' = size_bytes f)))))"
  using assms
  by (auto simp: rename_def Let_def remote_def modify_def failed_message_def updatePath_def
        isPersisted_def apply_full_info_def updatePath_obj_def
      split: sum.splits json_body.splits)

text \<open>
  A temporary entity at \<open>a.txt\<close> renamed to \<open>dir/b.json\<close> with the remote API out of
  reach, and the persisted entity \<open>file1.txt\<close> renamed to \<open>newfile.txt\<close> by a move that
  answers \<^verbatim>\<open>{modified: 456, size: 200}\<close>.
\<close>

theorem rename_witness:
  "0 < length (heap temporary_world) \<and>
   isTemporary (heap temporary_world ! 0) \<and>
   snd (rename offline ''dir/b.json'' 0 temporary_world) = Inr 0 \<and>
   calls (fst (rename offline ''dir/b.json'' 0 temporary_world)) = [] \<and>
   path (heap (fst (rename offline ''dir/b.json'' 0 temporary_world)) ! 0) = ''dir/b.json'' \<and>
   directory (heap (fst (rename offline ''dir/b.json'' 0 temporary_world)) ! 0) = ''dir'' \<and>
   fullFilename (heap (fst (rename offline ''dir/b.json'' 0 temporary_world)) ! 0) = ''b.json'' \<and>
   filename (heap (fst (rename offline ''dir/b.json'' 0 temporary_world)) ! 0) = ''b'' \<and>
   suffix (heap (fst (rename offline ''dir/b.json'' 0 temporary_world)) ! 0) = Some ''json'' \<and>
   size_bytes (heap (fst (rename offline ''dir/b.json'' 0 temporary_world)) ! 0) = - 1 \<and>
   content (heap (fst (rename offline ''dir/b.json'' 0 temporary_world)) ! 0) = Some ''text'' \<and>
   0 < length (heap persisted_world) \<and>
   isPersisted (heap persisted_world ! 0) \<and>
   calls (fst (rename full_info_api ''newfile.txt'' 0 persisted_world)) =
     [MoveUserData ''file1.txt'' ''newfile.txt''] \<and>
   snd (rename full_info_api ''newfile.txt'' 0 persisted_world) = Inr 0 \<and>
   path (heap (fst (rename full_info_api ''newfile.txt'' 0 persisted_world)) ! 0) = ''newfile.txt'' \<and>
   directory (heap (fst (rename full_info_api ''newfile.txt'' 0 persisted_world)) ! 0) = [] \<and>
   fullFilename (heap (fst (rename full_info_api ''newfile.txt'' 0 persisted_world)) ! 0) = ''newfile.txt'' \<and>
   filename (heap (fst (rename full_info_api ''newfile.txt'' 0 persisted_world)) ! 0) = ''newfile'' \<and>
   suffix (heap (fst (rename full_info_api ''newfile.txt'' 0 persisted_world)) ! 0) = Some ''txt'' \<and>
   lastModified (heap (fst (rename full_info_api ''newfile.txt'' 0 persisted_world)) ! 0) = 456 \<and>
   size_bytes (heap (fst (rename full_info_api ''newfile.txt'' 0 persisted_world)) ! 0) = 200"
  using rename_behaviour [of 0 temporary_world offline "''dir/b.json''"]
    rename_behaviour [of 0 persisted_world full_info_api "''newfile.txt''"]
  by (simp add: Let_def temporary_world_def persisted_world_def one_file_def isTemporary_def
      isPersisted_def createTemporary_obj_def
      full_info_api_def offline_def ok_json_def full_info_456_200_def apply_full_info_def
      updatePath_obj_def getPathDetails_def after_last_def before_last_def new_UserFile_def)

section \<open>Save as\<close>

lemma save_returns_this:
  "save a force this w = (w', Inr r) \<Longrightarrow> r = this"
  by (auto simp: save_def Let_def split: if_splits sum.splits)

lemma saveAs_temporary:
  assumes "this < length (heap w)" "isTemporary (heap w ! this)"
  shows "saveAs a now newPath this w = save a False this w"
proof -
  have "modify this (\<lambda>f. f\<lparr> content := content (heap w ! this) \<rparr>) w = w"
    by (simp add: modify_def)
  then show ?thesis
    using assms
    by (auto simp: saveAs_def Let_def dest: save_returns_this split: prod.splits sum.splits)
qed

text \<open>
  On a persisted receiver, \<^verbatim>\<open>saveAs(newPath)\<close> allocates a new object at \<open>newPath\<close> with
  the receiver's content, issues one store call for it with \<open>overwrite = false\<close>, returns
  the new reference, and leaves the receiver, like every object that existed before,
  as it was.
\<close>

lemma saveAs_persisted:
  assumes "this < length (heap w)" "isPersisted (heap w ! this)"
  shows
    "(let f = heap w ! this;
          new = length (heap w);
          opts = \<lparr> overwrite = False, throwOnError = True, full_info = True \<rparr>;
          w' = fst (saveAs a now newPath this w);
          res = snd (saveAs a now newPath this w)
      in calls w' = calls w @ [StoreUserData newPath (content f) opts] \<and>
         take (length (heap w)) (heap w') = heap w \<and>
         heap w' ! this = f \<and>
         length (heap w') = Suc (length (heap w)) \<and>
         path (heap w' ! new) = newPath \<and>
         content (heap w' ! new) = content f \<and>
         (case storeUserData a newPath (content f) opts of
            Inl err \<Rightarrow> res = Inl err
          | Inr resp \<Rightarrow> res = Inr new \<and> new \<noteq> this))"
  using assms
  by (auto simp: saveAs_def save_def Let_def createTemporary_def alloc_def modify_def remote_def
        isPersisted_def isTemporary_def createTemporary_obj_def nth_append apply_full_info_def
      split: sum.splits json_body.splits)

text \<open>
  On a temporary receiver the argument \<open>newPath\<close> is never read: the receiver is saved
  under the path it already has.
\<close>

lemma saveAs_temporary_ignores_newPath:
  assumes "this < length (heap w)" "isTemporary (heap w ! this)"
  shows "path (heap (fst (saveAs a now newPath this w)) ! this) = path (heap w ! this) \<and>
         calls (fst (saveAs a now newPath this w)) =
           calls w @ [StoreUserData (path (heap w ! this)) (content (heap w ! this))
                        \<lparr> overwrite = False, throwOnError = True, full_info = True \<rparr>]"
  using assms
  by (auto simp: saveAs_temporary save_def Let_def isPersisted_def remote_def modify_def
        apply_full_info_def split: sum.splits json_body.splits)

text \<open>
  C2. The specification has \<^verbatim>\<open>saveAs(newPath)\<close> on a temporary entity return the
  receiver with its path equal to \<open>newPath\<close>. The code returns the receiver, but with the
  old path: a temporary entity at \<open>a.txt\<close> saved as \<open>b.txt\<close> is stored remotely under
  \<open>a.txt\<close> and keeps the path \<open>a.txt\<close>. The persisted branch does use \<open>newPath\<close>.
\<close>

theorem saveAs_temporary_keeps_old_path:
  "isTemporary (heap temporary_world ! 0) \<and>
   snd (saveAs full_info_api 2000 ''b.txt'' 0 temporary_world) = Inr 0 \<and>
   path (heap (fst (saveAs full_info_api 2000 ''b.txt'' 0 temporary_world)) ! 0) = ''a.txt'' \<and>
   path (heap (fst (saveAs full_info_api 2000 ''b.txt'' 0 temporary_world)) ! 0) \<noteq> ''b.txt'' \<and>
   calls (fst (saveAs full_info_api 2000 ''b.txt'' 0 temporary_world)) =
     [StoreUserData ''a.txt'' (Some ''text'')
        \<lparr> overwrite = False, throwOnError = True, full_info = True \<rparr>]"
  by (simp add: Let_def temporary_world_def one_file_def saveAs_def save_def
        createTemporary_obj_def isTemporary_def
        isPersisted_def isModified_def modify_def remote_def full_info_api_def offline_def ok_json_def
        full_info_456_200_def apply_full_info_def)

section \<open>Temporary entities stay temporary until a save reports metadata\<close>

text \<open>
  C3, as stated, fails when the store call answers with a bare string, the legacy response
  that \<^verbatim>\<open>save\<close> accepts: the save succeeds and the entity is still temporary.
\<close>

theorem save_legacy_response_stays_temporary:
  "isTemporary (heap temporary_world ! 0) \<and>
   snd (save legacy_api False 0 temporary_world) = Inr 0 \<and>
   \<not> isPersisted (heap (fst (save legacy_api False 0 temporary_world)) ! 0) \<and>
   size_bytes (heap (fst (save legacy_api False 0 temporary_world)) ! 0) = - 1"
  by (simp add: Let_def temporary_world_def one_file_def save_def
        createTemporary_obj_def isTemporary_def
        isPersisted_def isModified_def modify_def remote_def legacy_api_def offline_def ok_json_def
        apply_full_info_def)

lemma save_temporary_heap:
  assumes "this < length (heap w)" "isTemporary (heap w ! this)"
  shows "heap (fst (save a force this w)) ! this =
     (case storeUserData a (path (heap w ! this)) (content (heap w ! this))
             \<lparr> overwrite = False, throwOnError = True, full_info = True \<rparr> of
        Inl err \<Rightarrow> heap w ! this
      | Inr resp \<Rightarrow> (apply_full_info (json resp) (heap w ! this))
                       \<lparr> originalContent := content (heap w ! this) \<rparr>)"
  using assms
  by (auto simp: save_def Let_def isPersisted_def remote_def modify_def apply_full_info_def
      split: sum.splits json_body.splits)

text \<open>
  C3, amended. For every temporary entity, \<open>size\<close> remains \<open>-1\<close> under \<^verbatim>\<open>load\<close>,
  \<^verbatim>\<open>unload\<close>, \<^verbatim>\<open>delete\<close>, \<^verbatim>\<open>rename\<close> and \<^verbatim>\<open>updatePath\<close>, and under a \<^verbatim>\<open>save\<close> or
  \<^verbatim>\<open>saveAs\<close> whose store call rejects or answers with a bare string; after a \<^verbatim>\<open>save\<close> or
  \<^verbatim>\<open>saveAs\<close> whose store call answers with a metadata object, \<open>size\<close> and
  \<open>lastModified\<close> equal the values that object reports.
\<close>

theorem temporary_until_full_info_saved:
  assumes "this < length (heap w)" and "isTemporary (heap w ! this)"
  shows
    "(let f = heap w ! this;
          opts = \<lparr> overwrite = False, throwOnError = True, full_info = True \<rparr>;
          f' = heap (perform a now op this w) ! this
      in (\<not> is_save op \<longrightarrow> size_bytes f' = - 1) \<and>
         (is_save op \<longrightarrow>
            (case storeUserData a (path f) (content f) opts of
               Inl err \<Rightarrow> size_bytes f' = - 1 \<and> lastModified f' = lastModified f
             | Inr resp \<Rightarrow>
                 (case json resp of
                    JsonString s \<Rightarrow> size_bytes f' = - 1 \<and> lastModified f' = lastModified f
                  | JsonObject info \<Rightarrow>
                      size_bytes f' = info_size info \<and> lastModified f' = info_modified info))))"
proof (cases op)
  case (Load force)
  then show ?thesis using assms by (simp add: perform_def is_save_def load_def isTemporary_def)
next
  case Unload
  then show ?thesis using assms
    by (simp add: perform_def is_save_def unload_def unload_obj_def modify_def isTemporary_def)
next
  case (Save force)
  then show ?thesis using assms save_temporary_heap [OF assms, of a force]
    by (simp add: perform_def is_save_def isTemporary_def apply_full_info_def
        split: sum.splits json_body.splits)
next
  case (SaveAs newPath)
  then show ?thesis using assms save_temporary_heap [OF assms, of a False]
    by (simp add: perform_def is_save_def isTemporary_def apply_full_info_def saveAs_temporary
        split: sum.splits json_body.splits)
next
  case Delete
  then show ?thesis using assms by (simp add: perform_def is_save_def delete_def isTemporary_def)
next
  case (Rename newPath)
  then show ?thesis using assms
    by (simp add: perform_def is_save_def rename_def updatePath_def updatePath_obj_def
        modify_def isTemporary_def Let_def)
next
  case (UpdatePath newPath)
  then show ?thesis using assms
    by (simp add: perform_def is_save_def updatePath_def updatePath_obj_def
        modify_def isTemporary_def Let_def)
qed

theorem temporary_until_full_info_saved_witness:
  "0 < length (heap temporary_world) \<and>
   isTemporary (heap temporary_world ! 0) \<and>
   is_save (Save False) \<and>
   size_bytes (heap (perform full_info_api 0 (Save False) 0 temporary_world) ! 0) = 200 \<and>
   lastModified (heap (perform full_info_api 0 (Save False) 0 temporary_world) ! 0) = 456 \<and>
   \<not> is_save (Rename ''b.txt'') \<and>
   size_bytes (heap (perform full_info_api 0 (Rename ''b.txt'') 0 temporary_world) ! 0) = - 1"
  using temporary_until_full_info_saved [of 0 temporary_world full_info_api 0 "Save False"]
    temporary_until_full_info_saved [of 0 temporary_world full_info_api 0 "Rename ''b.txt''"]
  by (simp add: Let_def temporary_world_def one_file_def isTemporary_def createTemporary_obj_def
      is_save_def full_info_api_def offline_def ok_json_def full_info_456_200_def)

section \<open>Sync: well-formed worlds and the steps of the first loop\<close>


lemma wf_worldD:
  assumes "wf_world w" "map_of (userFilesByPath w) p = Some r"
  shows "r < length (heap w)"
  using assms by (auto simp: wf_world_def list_all_iff dest!: map_of_SomeD)

lemma wf_world_inj:
  assumes "wf_world w" "map_of (userFilesByPath w) p = Some r" "map_of (userFilesByPath w) q = Some r"
  shows "p = q"
proof -
  have "(p, r) \<in> set (userFilesByPath w)" "(q, r) \<in> set (userFilesByPath w)"
    using assms by (auto dest: map_of_SomeD)
  moreover have "inj_on snd (set (userFilesByPath w))"
    using assms(1) by (simp add: wf_world_def distinct_map)
  ultimately have "(p, r) = (q, r)"
    by (intro inj_onD [of snd "set (userFilesByPath w)"]) simp_all
  then show ?thesis by simp
qed

lemma update_fresh:
  "k \<notin> fst ` set al \<Longrightarrow> AList.update k v al = al @ [(k, v)]"
  by (induction al) auto

lemma get_property_cases:
  "get_property m k = Own r \<longleftrightarrow> map_of m k = Some r"
  "get_property m k = Undefined \<longleftrightarrow> map_of m k = None \<and> k \<notin> set object_prototype_members"
  "get_property m k = Inherited n \<longleftrightarrow>
     map_of m k = None \<and> k \<in> set object_prototype_members \<and> n = k"
  by (auto simp: get_property_def split: option.splits)

lemma wf_world_add_or_update:
  assumes "wf_world w"
  shows "wf_world (fst (add_or_update cb e w))"
proof (cases "get_property (userFilesByPath w) (e_path e)")
  case Undefined
  then have none: "map_of (userFilesByPath w) (e_path e) = None"
    by (simp add: get_property_cases)
  then have notin: "e_path e \<notin> fst ` set (userFilesByPath w)"
    by (simp add: map_of_eq_None_iff)
  then have upd: "AList.update (e_path e) (length (heap w)) (userFilesByPath w) =
      userFilesByPath w @ [(e_path e, length (heap w))]"
    by (rule update_fresh)
  have "length (heap w) \<notin> snd ` set (userFilesByPath w)"
    using assms by (auto simp: wf_world_def list_all_iff)
  then show ?thesis
    using assms Undefined notin
    by (auto simp: add_or_update_def alloc_def Let_def wf_world_def upd list_all_iff)
next
  case (Own r)
  then show ?thesis
    using assms by (auto simp: add_or_update_def Let_def modify_def wf_world_def)
next
  case (Inherited n)
  then show ?thesis
    using assms by (auto simp: add_or_update_def Let_def)
qed

lemma frame_add_or_update:
  "userDirs (fst (add_or_update cb e w)) = userDirs w"
  "calls (fst (add_or_update cb e w)) = calls w"
  "length (heap w) \<le> length (heap (fst (add_or_update cb e w)))"
  by (auto simp: add_or_update_def alloc_def Let_def modify_def split: property.splits)

lemma add_or_update_at_existing:
  assumes "wf_world w" "map_of (userFilesByPath w) p = Some r"
  shows "map_of (userFilesByPath (fst (add_or_update cb e w))) p = Some r"
    and "heap (fst (add_or_update cb e w)) ! r =
           (if e_path e = p \<and> \<not> exclude cb (heap w ! r)
            then updateEntity cb (heap w ! r) e else heap w ! r)"
proof -
  have r: "r < length (heap w)" using assms by (rule wf_worldD)
  show "map_of (userFilesByPath (fst (add_or_update cb e w))) p = Some r"
    using assms(2)
    by (auto simp: add_or_update_def alloc_def Let_def modify_def update_conv'
        get_property_cases split: property.splits)
  show "heap (fst (add_or_update cb e w)) ! r =
           (if e_path e = p \<and> \<not> exclude cb (heap w ! r)
            then updateEntity cb (heap w ! r) e else heap w ! r)"
  proof (cases "get_property (userFilesByPath w) (e_path e)")
    case Undefined
    then have "e_path e \<noteq> p" using assms(2) by (auto simp: get_property_cases)
    then show ?thesis
      using Undefined r by (simp add: add_or_update_def alloc_def Let_def nth_append)
  next
    case (Inherited n)
    then have "e_path e \<noteq> p" using assms(2) by (auto simp: get_property_cases)
    then show ?thesis
      using Inherited by (simp add: add_or_update_def Let_def)
  next
    case (Own r')
    then have own: "map_of (userFilesByPath w) (e_path e) = Some r'"
      by (simp add: get_property_cases)
    show ?thesis
    proof (cases "e_path e = p")
      case True
      then have "r' = r" using own assms(2) by simp
      then show ?thesis
        using Own True r by (simp add: add_or_update_def Let_def modify_def)
    next
      case False
      then have "r' \<noteq> r" using wf_world_inj [OF assms(1) own, of p] assms(2) by auto
      then show ?thesis
        using Own False by (simp add: add_or_update_def Let_def modify_def)
    qed
  qed
qed

lemma add_or_update_keeps_None:
  assumes "map_of (userFilesByPath w) p = None"
    and "e_path e \<noteq> p \<or> p \<in> set object_prototype_members"
  shows "map_of (userFilesByPath (fst (add_or_update cb e w))) p = None"
  using assms
  by (auto simp: add_or_update_def alloc_def Let_def modify_def update_conv'
      get_property_cases split: property.splits)

lemma add_or_update_creates:
  assumes "map_of (userFilesByPath w) p = None" "e_path e = p"
    and "p \<notin> set object_prototype_members"
  shows "add_or_update cb e w =
     (w\<lparr> heap := heap w @ [createEntity cb e],
         userFilesByPath := AList.update p (length (heap w)) (userFilesByPath w) \<rparr>, None)"
proof -
  have "get_property (userFilesByPath w) (e_path e) = Undefined"
    using assms by (simp add: get_property_cases)
  then show ?thesis
    using assms(2) by (simp add: add_or_update_def alloc_def Let_def)
qed

lemma add_or_update_no_member:
  "e_path e \<notin> set object_prototype_members \<Longrightarrow> snd (add_or_update cb e w) = None"
  by (auto simp: add_or_update_def alloc_def Let_def get_property_cases split: property.splits)

subsection \<open>The loop over the file entries\<close>

lemma add_or_update_all_Cons:
  "add_or_update_all cb (e # es) w =
     (if snd (add_or_update cb e w) = None
      then add_or_update_all cb es (fst (add_or_update cb e w))
      else add_or_update cb e w)"
  by (cases "add_or_update cb e w") (auto split: option.splits)

lemma processed_Cons:
  "processed cb (e # es) w =
     (if snd (add_or_update cb e w) = None
      then e # processed cb es (fst (add_or_update cb e w))
      else [])"
  by (cases "add_or_update cb e w") (auto split: option.splits)

declare add_or_update_all.simps(2) [simp del] processed.simps(2) [simp del]

lemma member_step_unchanged:
  "snd (add_or_update cb e w) \<noteq> None \<Longrightarrow> fst (add_or_update cb e w) = w"
  by (auto simp: add_or_update_def alloc_def Let_def split: property.splits if_splits)

lemma set_processed: "set (processed cb es w) \<subseteq> set es"
  by (induction es arbitrary: w) (auto simp: processed_Cons)

lemma processed_all:
  "snd (add_or_update_all cb es w) = None \<longleftrightarrow> processed cb es w = es"
  by (induction es arbitrary: w) (auto simp: processed_Cons add_or_update_all_Cons)

lemma add_or_update_all_no_member:
  "\<forall>e\<in>set es. e_path e \<notin> set object_prototype_members \<Longrightarrow>
   snd (add_or_update_all cb es w) = None"
  by (induction es arbitrary: w) (auto simp: add_or_update_all_Cons add_or_update_no_member)

lemma wf_world_add_or_update_all:
  "wf_world w \<Longrightarrow> wf_world (fst (add_or_update_all cb es w))"
  by (induction es arbitrary: w) (auto simp: add_or_update_all_Cons wf_world_add_or_update)

lemma frame_add_or_update_all:
  "userDirs (fst (add_or_update_all cb es w)) = userDirs w"
  "calls (fst (add_or_update_all cb es w)) = calls w"
  by (induction es arbitrary: w) (auto simp: add_or_update_all_Cons frame_add_or_update)

lemma length_heap_add_or_update_all:
  "length (heap w) \<le> length (heap (fst (add_or_update_all cb es w)))"
proof (induction es arbitrary: w)
  case Nil
  show ?case by simp
next
  case (Cons e es)
  have "length (heap w) \<le> length (heap (fst (add_or_update cb e w)))"
    by (rule frame_add_or_update)
  also have "\<dots> \<le> length (heap (fst (add_or_update_all cb es (fst (add_or_update cb e w)))))"
    by (rule Cons.IH)
  finally show ?case
    by (auto simp: add_or_update_all_Cons frame_add_or_update)
qed


lemma all_stop:
  assumes "snd (add_or_update cb e w) \<noteq> None"
  shows "fst (add_or_update_all cb (e # es) w) = w"
    and "snd (add_or_update_all cb (e # es) w) = snd (add_or_update cb e w)"
    and "processed cb (e # es) w = []"
proof -
  from assms obtain err where "snd (add_or_update cb e w) = Some err" by auto
  moreover have "fst (add_or_update cb e w) = w" using assms by (rule member_step_unchanged)
  ultimately have step: "add_or_update cb e w = (w, Some err)" by (metis prod.collapse)
  show "fst (add_or_update_all cb (e # es) w) = w"
    and "snd (add_or_update_all cb (e # es) w) = snd (add_or_update cb e w)"
    and "processed cb (e # es) w = []"
    by (simp_all add: step add_or_update_all.simps(2) processed.simps(2))
qed

lemma all_continue:
  assumes "snd (add_or_update cb e w) = None"
  shows "add_or_update_all cb (e # es) w = add_or_update_all cb es (fst (add_or_update cb e w))"
    and "processed cb (e # es) w = e # processed cb es (fst (add_or_update cb e w))"
  using assms by (simp_all add: add_or_update_all_Cons processed_Cons)

lemma all_at_existing:
  assumes "wf_world w" "map_of (userFilesByPath w) p = Some r"
  shows "map_of (userFilesByPath (fst (add_or_update_all cb es w))) p = Some r \<and>
         heap (fst (add_or_update_all cb es w)) ! r =
           fold (\<lambda>e f. if exclude cb f then f else updateEntity cb f e)
             (filter (\<lambda>e. e_path e = p) (processed cb es w)) (heap w ! r)"
  using assms
proof (induction es arbitrary: w)
  case Nil
  then show ?case by simp
next
  case (Cons e es)
  let ?w1 = "fst (add_or_update cb e w)"
  show ?case
  proof (cases "snd (add_or_update cb e w) = None")
    case False
    then show ?thesis
      using Cons.prems by (simp add: all_stop)
  next
    case True
    have wf1: "wf_world ?w1" using Cons.prems(1) by (rule wf_world_add_or_update)
    have k1: "map_of (userFilesByPath ?w1) p = Some r"
      using Cons.prems by (rule add_or_update_at_existing)
    have h1: "heap ?w1 ! r =
        (if e_path e = p \<and> \<not> exclude cb (heap w ! r)
         then updateEntity cb (heap w ! r) e else heap w ! r)"
      using Cons.prems by (rule add_or_update_at_existing)
    from Cons.IH [OF wf1 k1] h1 show ?thesis
      by (simp add: all_continue [OF True])
  qed
qed

lemma all_keeps_None:
  assumes "map_of (userFilesByPath w) p = None"
    and "p \<in> set object_prototype_members \<or> p \<notin> e_path ` set (processed cb es w)"
  shows "map_of (userFilesByPath (fst (add_or_update_all cb es w))) p = None"
  using assms
proof (induction es arbitrary: w)
  case Nil
  then show ?case by simp
next
  case (Cons e es)
  let ?w1 = "fst (add_or_update cb e w)"
  show ?case
  proof (cases "snd (add_or_update cb e w) = None")
    case False
    then show ?thesis
      using Cons.prems(1) by (simp add: all_stop)
  next
    case True
    have "e_path e \<noteq> p \<or> p \<in> set object_prototype_members"
      using Cons.prems(2) by (auto simp: all_continue [OF True])
    with Cons.prems(1) have k1: "map_of (userFilesByPath ?w1) p = None"
      by (rule add_or_update_keeps_None)
    have "p \<in> set object_prototype_members \<or> p \<notin> e_path ` set (processed cb es ?w1)"
      using Cons.prems(2) by (auto simp: all_continue [OF True])
    from Cons.IH [OF k1 this] show ?thesis
      by (simp add: all_continue [OF True])
  qed
qed

lemma all_at_new:
  assumes "wf_world w" "map_of (userFilesByPath w) p = None"
    and "p \<notin> set object_prototype_members"
    and "filter (\<lambda>e. e_path e = p) (processed cb es w) = e0 # rest"
  shows "\<exists>r. length (heap w) \<le> r \<and>
           map_of (userFilesByPath (fst (add_or_update_all cb es w))) p = Some r \<and>
           heap (fst (add_or_update_all cb es w)) ! r =
             fold (\<lambda>e f. if exclude cb f then f else updateEntity cb f e) rest
               (createEntity cb e0)"
  using assms
proof (induction es arbitrary: w)
  case Nil
  then show ?case by simp
next
  case (Cons e es)
  let ?w1 = "fst (add_or_update cb e w)"
  have ok: "snd (add_or_update cb e w) = None"
  proof (rule ccontr)
    assume "snd (add_or_update cb e w) \<noteq> None"
    then have "processed cb (e # es) w = []" by (rule all_stop)
    then show False using Cons.prems(4) by simp
  qed
  have pr: "processed cb (e # es) w = e # processed cb es ?w1"
    using ok by (rule all_continue)
  have al: "add_or_update_all cb (e # es) w = add_or_update_all cb es ?w1"
    using ok by (rule all_continue)
  have wf1: "wf_world ?w1" using Cons.prems(1) by (rule wf_world_add_or_update)
  show ?case
  proof (cases "e_path e = p")
    case True
    have "e # filter (\<lambda>e. e_path e = p) (processed cb es ?w1) = e0 # rest"
      using Cons.prems(4) True unfolding pr by (simp only: filter.simps simp_thms if_True)
    then have both: "e = e0 \<and> filter (\<lambda>e. e_path e = p) (processed cb es ?w1) = rest"
      by (rule list.inject [THEN iffD1])
    have e0: "e0 = e" using both by simp
    have rest: "filter (\<lambda>e. e_path e = p) (processed cb es ?w1) = rest"
      using both by (rule conjunct2)
    have step: "add_or_update cb e w =
        (w\<lparr> heap := heap w @ [createEntity cb e],
            userFilesByPath := AList.update p (length (heap w)) (userFilesByPath w) \<rparr>, None)"
      using Cons.prems(2) True Cons.prems(3) by (rule add_or_update_creates)
    have k1: "map_of (userFilesByPath ?w1) p = Some (length (heap w))"
      by (simp add: step update_conv')
    have h1: "heap ?w1 ! length (heap w) = createEntity cb e"
      by (simp add: step)
    from all_at_existing [OF wf1 k1, of cb es]
    have k2: "map_of (userFilesByPath (fst (add_or_update_all cb es ?w1))) p =
        Some (length (heap w))"
      and h2: "heap (fst (add_or_update_all cb es ?w1)) ! length (heap w) =
        fold (\<lambda>e f. if exclude cb f then f else updateEntity cb f e)
          (filter (\<lambda>e. e_path e = p) (processed cb es ?w1)) (heap ?w1 ! length (heap w))"
      by simp_all
    have "heap (fst (add_or_update_all cb es ?w1)) ! length (heap w) =
        fold (\<lambda>e f. if exclude cb f then f else updateEntity cb f e) rest (createEntity cb e0)"
      unfolding h2 rest h1 e0 ..
    with k2 show ?thesis unfolding al by blast
  next
    case False
    then have f: "filter (\<lambda>e. e_path e = p) (processed cb es ?w1) = e0 # rest"
      using Cons.prems(4) by (simp add: pr)
    have k1: "map_of (userFilesByPath ?w1) p = None"
      using Cons.prems(2) False by (intro add_or_update_keeps_None) simp_all
    from Cons.IH [OF wf1 k1 Cons.prems(3) f] obtain r where
      r: "length (heap ?w1) \<le> r"
         "map_of (userFilesByPath (fst (add_or_update_all cb es ?w1))) p = Some r"
         "heap (fst (add_or_update_all cb es ?w1)) ! r =
            fold (\<lambda>e f. if exclude cb f then f else updateEntity cb f e) rest (createEntity cb e0)"
      by blast
    have "length (heap w) \<le> length (heap ?w1)" by (rule frame_add_or_update)
    with r show ?thesis unfolding al by auto
  qed
qed

lemma fold_excluded:
  "x f \<Longrightarrow> fold (\<lambda>e f. if x f then f else u f e) es f = f"
  by (induction es) simp_all

subsection \<open>Reading the collection\<close>

lemma get_property_examples:
  "get_property [] ''constructor'' = Inherited ''constructor''"
  "get_property [] ''__proto__'' = Inherited ''__proto__''"
  "get_property [] ''toString'' = Inherited ''toString''"
  "get_property [] ''d/a'' = Undefined"
  "get_property [(''d/a'', 0)] ''d/a'' = Own 0"
  "get_property [(''constructor'', 0)] ''constructor'' = Own 0"
  by (simp_all add: get_property_def object_prototype_members_def)

lemma own_keys_example:
  "own_keys [(''b'', 0), (''10'', 1), (''a'', 2), (''2'', 3), (''01'', 4)] =
     [''2'', ''10'', ''b'', ''a'', ''01'']"
  by (simp add: own_keys_def array_index_def is_digit_def read_nat_def coalesce_def Let_def)


lemma set_own_keys: "set (own_keys m) = fst ` set m"
  by (auto simp: own_keys_def Let_def)

subsection \<open>The loop that removes entities\<close>

lemma frame_remove_if_absent:
  "heap (remove_if_absent cb files p w) = heap w"
  "userDirs (remove_if_absent cb files p w) = userDirs w"
  "calls (remove_if_absent cb files p w) = calls w"
  by (simp_all add: remove_if_absent_def split: option.splits)

lemma frame_fold_remove:
  "heap (fold (remove_if_absent cb files) ps w) = heap w"
  "userDirs (fold (remove_if_absent cb files) ps w) = userDirs w"
  "calls (fold (remove_if_absent cb files) ps w) = calls w"
  by (induction ps arbitrary: w) (simp_all add: frame_remove_if_absent)

lemma map_of_remove_if_absent_cases:
  "map_of (userFilesByPath (remove_if_absent cb files q w)) p =
     (case map_of (userFilesByPath w) p of
        None \<Rightarrow> None
      | Some r \<Rightarrow>
          if p = q \<and> p \<notin> e_path ` set files \<and> \<not> exclude cb (heap w ! r) then None else Some r)"
  by (auto simp: remove_if_absent_def list_ex_iff delete_conv' split: option.splits)

lemma map_of_fold_remove_cases:
  "map_of (userFilesByPath (fold (remove_if_absent cb files) ps w)) p =
     (case map_of (userFilesByPath w) p of
        None \<Rightarrow> None
      | Some r \<Rightarrow>
          if p \<in> set ps \<and> p \<notin> e_path ` set files \<and> \<not> exclude cb (heap w ! r)
          then None else Some r)"
proof (induction ps arbitrary: w)
  case Nil
  show ?case by (simp split: option.splits)
next
  case (Cons q ps)
  show ?case
    by (simp add: Cons.IH map_of_remove_if_absent_cases frame_remove_if_absent
        split: option.splits)
qed

lemma wf_world_remove_if_absent:
  assumes "wf_world w"
  shows "wf_world (remove_if_absent cb files p w)"
proof -
  have "wf_world (w\<lparr> userFilesByPath := AList.delete p (userFilesByPath w) \<rparr>)"
    using assms
    by (auto simp: wf_world_def AList.delete_eq distinct_map_filter list_all_iff)
  then show ?thesis
    using assms by (simp add: remove_if_absent_def split: option.splits)
qed

lemma wf_world_fold_remove:
  "wf_world w \<Longrightarrow> wf_world (fold (remove_if_absent cb files) ps w)"
  by (induction ps arbitrary: w) (simp_all add: wf_world_remove_if_absent)

lemma fold_track_directory:
  "fold track_directory entries D =
     D \<union> e_path ` {e \<in> set entries. e_type e = ''directory''}"
  by (induction entries arbitrary: D) (auto simp: track_directory_def)

subsection \<open>What the updates of one listing leave in an object\<close>

lemma coalesce_simps [simp]:
  "coalesce (Some v) d = v"
  "coalesce None d = d"
  by (simp_all add: coalesce_def)

lemma reported_snoc:
  "reported field (es @ [e]) d = coalesce (field e) (reported field es d)"
proof (cases "field e")
  case None
  then show ?thesis by (simp add: reported_def)
next
  case (Some v)
  then show ?thesis
    by (cases "filter (\<lambda>e. field e \<noteq> None) es") (simp_all add: reported_def)
qed

lemma reported_fold:
  "fold (\<lambda>e acc. coalesce (field e) acc) es d = reported field es d"
proof (induction es rule: rev_induct)
  case Nil
  show ?case by (simp add: reported_def)
next
  case (snoc e es)
  then show ?case by (simp add: reported_snoc)
qed

lemma reported_Cons: "reported field (e # es) d = reported field es (coalesce (field e) d)"
  by (simp add: reported_fold [symmetric])

lemma reported_Nil [simp]: "reported field [] d = d"
  by (simp add: reported_def)

lemma reported_neq:
  "d \<noteq> v \<Longrightarrow> \<forall>e\<in>set es. field e \<noteq> Some v \<Longrightarrow> reported field es d \<noteq> v"
proof (induction es arbitrary: d)
  case Nil
  then show ?case by simp
next
  case (Cons e es)
  have "coalesce (field e) d \<noteq> v"
    using Cons.prems by (cases "field e") auto
  moreover have "\<forall>e\<in>set es. field e \<noteq> Some v"
    using Cons.prems(2) by simp
  ultimately have "reported field es (coalesce (field e) d) \<noteq> v"
    by (rule Cons.IH)
  then show ?case by (simp add: reported_Cons)
qed

lemma reported_all_None:
  "\<forall>e\<in>set es. field e = None \<Longrightarrow> reported field es d = d"
  by (induction es arbitrary: d) (auto simp: reported_Cons)

lemma fold_syncFiles_update:
  "es \<noteq> [] \<Longrightarrow>
   fold (\<lambda>e f. syncFiles_update f e) es f =
     unload_obj (f\<lparr> lastModified := reported e_modified es (lastModified f),
                    size_bytes := reported e_size es (size_bytes f) \<rparr>)"
proof (induction es arbitrary: f)
  case Nil
  then show ?case by simp
next
  case (Cons e es)
  show ?case
  proof (cases "es = []")
    case True
    then show ?thesis by (simp add: syncFiles_update_def reported_Cons)
  next
    case False
    from Cons.IH [OF False, of "syncFiles_update f e"] show ?thesis
      by (simp add: reported_Cons syncFiles_update_def unload_obj_def)
  qed
qed

lemma fold_syncFiles_update_create:
  "e_path e0 = p \<Longrightarrow>
   fold (\<lambda>e f. syncFiles_update f e) es (syncFiles_create e0) =
     new_UserFile p (reported e_modified (e0 # es) 0) (reported e_size (e0 # es) 0)"
proof (cases "es = []")
  case True
  assume "e_path e0 = p"
  then show ?thesis using True by (simp add: syncFiles_create_def reported_Cons)
next
  case False
  assume "e_path e0 = p"
  then show ?thesis
    using fold_syncFiles_update [OF False, of "syncFiles_create e0"]
    by (simp add: reported_Cons syncFiles_create_def unload_obj_def new_UserFile_def Let_def)
qed


subsection \<open>The whole of \<^verbatim>\<open>syncEntitiesV2\<close>\<close>

lemma listed_world_simps [simp]:
  "heap (listed_world dir entries w) = heap w"
  "userFilesByPath (listed_world dir entries w) = userFilesByPath w"
  "wf_world (listed_world dir entries w) = wf_world w"
  by (simp_all add: listed_world_def remote_def wf_world_def)

lemma syncEntitiesV2_rejected:
  "listUserDataV2 a dir = Inl err \<Longrightarrow>
   syncEntitiesV2 a dir cb t w = (remote (ListUserDataV2 dir) w, Some err)"
  by (simp add: syncEntitiesV2_def Let_def)

lemma syncEntitiesV2_resolved:
  assumes "listUserDataV2 a dir = Inr entries"
  shows "syncEntitiesV2 a dir cb True w =
     (let loop = add_or_update_all cb (file_entries entries) (listed_world dir entries w)
      in case snd loop of
           Some err \<Rightarrow> (fst loop, Some err)
         | None \<Rightarrow>
             (fold (remove_if_absent cb (file_entries entries))
                (own_keys (userFilesByPath (fst loop))) (fst loop), None))"
  using assms
  by (simp add: syncEntitiesV2_def Let_def file_entries_def listed_world_def
      split: prod.splits option.splits)

lemma syncEntitiesV2_heap:
  assumes "listUserDataV2 a dir = Inr entries"
  shows "heap (fst (syncEntitiesV2 a dir cb True w)) =
           heap (fst (add_or_update_all cb (file_entries entries) (listed_world dir entries w)))"
    and "userDirs (fst (syncEntitiesV2 a dir cb True w)) = fold track_directory entries {}"
  using assms
  by (simp_all add: syncEntitiesV2_resolved Let_def frame_fold_remove frame_add_or_update_all
      listed_world_def split: option.splits)

lemma syncEntitiesV2_kept:
  assumes "listUserDataV2 a dir = Inr entries"
    and "map_of (userFilesByPath (fst (syncEntitiesV2 a dir cb True w))) p = Some r"
  shows "map_of (userFilesByPath
           (fst (add_or_update_all cb (file_entries entries) (listed_world dir entries w)))) p =
         Some r"
  using assms
  by (auto simp: syncEntitiesV2_resolved Let_def map_of_fold_remove_cases
      split: option.splits if_splits)

lemma syncEntitiesV2_resolved_map_of:
  assumes "listUserDataV2 a dir = Inr entries"
    and "snd (syncEntitiesV2 a dir cb True w) = None"
  shows "map_of (userFilesByPath (fst (syncEntitiesV2 a dir cb True w))) p =
     (case map_of (userFilesByPath
             (fst (add_or_update_all cb (file_entries entries) (listed_world dir entries w)))) p of
        None \<Rightarrow> None
      | Some r \<Rightarrow>
          if p \<notin> e_path ` set (file_entries entries) \<and>
             \<not> exclude cb (heap (fst (add_or_update_all cb (file_entries entries)
                                       (listed_world dir entries w))) ! r)
          then None else Some r)"
proof -
  let ?w2 = "fst (add_or_update_all cb (file_entries entries) (listed_world dir entries w))"
  have "p \<in> set (own_keys (userFilesByPath ?w2))" if "map_of (userFilesByPath ?w2) p = Some r" for r
    using that unfolding set_own_keys by (metis domI dom_map_of_conv_image_fst)
  then show ?thesis
    using assms
    by (auto simp: syncEntitiesV2_resolved Let_def map_of_fold_remove_cases
        split: option.splits)
qed

text \<open>
  The exclusion hook, with any callbacks: an entity that is excluded when the sync starts is
  neither updated nor removed, and an entity that is not excluded and whose path is absent
  from the listing's file entries is removed by a sync that resolves.
\<close>

lemma syncEntitiesV2_exclusion:
  assumes "wf_world w" "listUserDataV2 a dir = Inr entries"
    and "map_of (userFilesByPath w) p = Some r"
  shows "exclude cb (heap w ! r) \<Longrightarrow>
           map_of (userFilesByPath (fst (syncEntitiesV2 a dir cb True w))) p = Some r \<and>
           heap (fst (syncEntitiesV2 a dir cb True w)) ! r = heap w ! r"
    and "\<not> exclude cb (heap w ! r) \<Longrightarrow> p \<notin> e_path ` set (file_entries entries) \<Longrightarrow>
         snd (syncEntitiesV2 a dir cb True w) = None \<Longrightarrow>
           map_of (userFilesByPath (fst (syncEntitiesV2 a dir cb True w))) p = None"
proof -
  let ?files = "file_entries entries"
  let ?w2 = "fst (add_or_update_all cb ?files (listed_world dir entries w))"
  have "wf_world (listed_world dir entries w)"
    "map_of (userFilesByPath (listed_world dir entries w)) p = Some r"
    using assms by simp_all
  from all_at_existing [OF this, of cb ?files]
  have k2: "map_of (userFilesByPath ?w2) p = Some r"
    and h2: "heap ?w2 ! r =
      fold (\<lambda>e f. if exclude cb f then f else updateEntity cb f e)
        (filter (\<lambda>e. e_path e = p) (processed cb ?files (listed_world dir entries w)))
        (heap w ! r)"
    by simp_all
  show "map_of (userFilesByPath (fst (syncEntitiesV2 a dir cb True w))) p = Some r \<and>
        heap (fst (syncEntitiesV2 a dir cb True w)) ! r = heap w ! r"
    if "exclude cb (heap w ! r)"
  proof -
    have h: "heap ?w2 ! r = heap w ! r" using h2 that by (simp add: fold_excluded)
    then show ?thesis
      using that assms(2) k2
      by (auto simp: syncEntitiesV2_resolved Let_def map_of_fold_remove_cases frame_fold_remove
          split: option.splits)
  qed
  show "map_of (userFilesByPath (fst (syncEntitiesV2 a dir cb True w))) p = None"
    if "\<not> exclude cb (heap w ! r)" "p \<notin> e_path ` set ?files"
      "snd (syncEntitiesV2 a dir cb True w) = None"
  proof -
    have "filter (\<lambda>e. e_path e = p) (processed cb ?files (listed_world dir entries w)) = []"
      using that(2) set_processed [of cb ?files "listed_world dir entries w"]
      by (auto simp: filter_empty_conv)
    then have "heap ?w2 ! r = heap w ! r" using h2 by simp
    then show ?thesis
      using that k2 by (simp add: syncEntitiesV2_resolved_map_of [OF assms(2) that(3)])
  qed
qed

subsection \<open>The whole of \<^verbatim>\<open>syncFiles\<close>\<close>

lemma syncFiles_callbacks_simps [simp]:
  "createEntity syncFiles_callbacks = syncFiles_create"
  "updateEntity syncFiles_callbacks = syncFiles_update"
  "exclude syncFiles_callbacks f = False"
  by (simp_all add: syncFiles_callbacks_def)

lemma wf_world_syncFiles:
  assumes "wf_world w"
  shows "wf_world (fst (syncFiles a dir w))"
proof (cases "listUserDataV2 a dir")
  case (Inl err)
  then show ?thesis
    using assms by (simp add: syncFiles_def syncEntitiesV2_rejected remote_def wf_world_def)
next
  case (Inr entries)
  then show ?thesis
    using assms
    by (simp add: syncFiles_def syncEntitiesV2_resolved Let_def wf_world_fold_remove
        wf_world_add_or_update_all split: option.splits)
qed

lemma wf_world_empty: "wf_world empty_world"
  by (simp add: wf_world_def empty_world_def)

lemma syncFiles_existing:
  assumes "wf_world w" "listUserDataV2 a dir = Inr entries"
    and "snd (syncFiles a dir w) = None"
    and "map_of (userFilesByPath w) p = Some r"
    and "p \<in> e_path ` set (file_entries entries)"
  shows "map_of (userFilesByPath (fst (syncFiles a dir w))) p = Some r"
    and "heap (fst (syncFiles a dir w)) ! r =
           unload_obj ((heap w ! r)\<lparr>
             lastModified := reported e_modified (entries_at p entries) (lastModified (heap w ! r)),
             size_bytes := reported e_size (entries_at p entries) (size_bytes (heap w ! r)) \<rparr>)"
proof -
  let ?files = "file_entries entries"
  let ?w1 = "listed_world dir entries w"
  let ?w2 = "fst (add_or_update_all syncFiles_callbacks ?files ?w1)"
  have all: "processed syncFiles_callbacks ?files ?w1 = ?files"
    using assms(2,3)
    by (simp add: syncFiles_def syncEntitiesV2_resolved Let_def processed_all [symmetric]
        split: option.splits)
  have ne: "entries_at p entries \<noteq> []"
    using assms(5) by (auto simp: entries_at_def filter_empty_conv)
  have "wf_world ?w1" "map_of (userFilesByPath ?w1) p = Some r"
    using assms by simp_all
  from all_at_existing [OF this, of syncFiles_callbacks ?files]
  have k2: "map_of (userFilesByPath ?w2) p = Some r"
    and h2: "heap ?w2 ! r = fold (\<lambda>e f. syncFiles_update f e) (entries_at p entries) (heap w ! r)"
    by (simp_all add: entries_at_def all)
  show "map_of (userFilesByPath (fst (syncFiles a dir w))) p = Some r"
    using assms(3,5) k2 unfolding syncFiles_def
    by (simp add: syncEntitiesV2_resolved_map_of [OF assms(2)])
  show "heap (fst (syncFiles a dir w)) ! r =
           unload_obj ((heap w ! r)\<lparr>
             lastModified := reported e_modified (entries_at p entries) (lastModified (heap w ! r)),
             size_bytes := reported e_size (entries_at p entries) (size_bytes (heap w ! r)) \<rparr>)"
    using h2 fold_syncFiles_update [OF ne]
    by (simp add: syncFiles_def syncEntitiesV2_heap [OF assms(2)])
qed

lemma syncFiles_created:
  assumes "wf_world w" "listUserDataV2 a dir = Inr entries"
    and "map_of (userFilesByPath w) p = None"
    and "map_of (userFilesByPath (fst (syncFiles a dir w))) p = Some r"
  shows "\<exists>es. es \<noteq> [] \<and> set es \<subseteq> set (entries_at p entries) \<and>
           length (heap w) \<le> r \<and>
           heap (fst (syncFiles a dir w)) ! r =
             new_UserFile p (reported e_modified es 0) (reported e_size es 0)"
proof -
  let ?files = "file_entries entries"
  let ?w1 = "listed_world dir entries w"
  let ?w2 = "fst (add_or_update_all syncFiles_callbacks ?files ?w1)"
  let ?done = "filter (\<lambda>e. e_path e = p) (processed syncFiles_callbacks ?files ?w1)"
  have k2: "map_of (userFilesByPath ?w2) p = Some r"
    using assms(2,4) unfolding syncFiles_def by (rule syncEntitiesV2_kept)
  have none1: "map_of (userFilesByPath ?w1) p = None" using assms(3) by simp
  have "\<not> (p \<in> set object_prototype_members \<or>
            p \<notin> e_path ` set (processed syncFiles_callbacks ?files ?w1))"
    using all_keeps_None [OF none1, of syncFiles_callbacks ?files] k2 by auto
  then have nm: "p \<notin> set object_prototype_members"
    and "?done \<noteq> []"
    by (auto simp: filter_empty_conv)
  then obtain e0 rest where es: "?done = e0 # rest" by (cases ?done) auto
  then have "e0 \<in> set ?done" by simp
  then have p0: "e_path e0 = p" by simp
  have wf1: "wf_world ?w1" using assms(1) by simp
  from all_at_new [OF wf1 none1 nm es] k2
  have r: "length (heap w) \<le> r"
    and h: "heap ?w2 ! r = fold (\<lambda>e f. syncFiles_update f e) rest (syncFiles_create e0)"
    by auto
  have "heap (fst (syncFiles a dir w)) ! r =
      new_UserFile p (reported e_modified (e0 # rest) 0) (reported e_size (e0 # rest) 0)"
    using h fold_syncFiles_update_create [OF p0, of rest]
    by (simp add: syncFiles_def syncEntitiesV2_heap [OF assms(2)])
  moreover have "set (e0 # rest) \<subseteq> set (entries_at p entries)"
    using set_processed [of syncFiles_callbacks ?files ?w1]
    unfolding es [symmetric] entries_at_def by auto
  ultimately show ?thesis using r by blast
qed


section \<open>Sync: the add/update/remove diff\<close>

text \<open>The definitions that a run of \<^verbatim>\<open>syncFiles\<close> on a concrete listing unfolds.\<close>

lemmas sync_eval =
  syncFiles_def syncEntitiesV2_def Let_def remote_def add_or_update_def
  add_or_update_all.simps(2) get_property_def object_prototype_members_def
  remove_if_absent_def alloc_def modify_def syncFiles_callbacks_def syncFiles_create_def
  syncFiles_update_def unload_obj_def coalesce_def own_keys_def array_index_def is_digit_def
  track_directory_def listing_api_def offline_def file_entry_def dir_entry_def bare_entry_def

text \<open>
  When no listed file path names a member of \<^verbatim>\<open>Object.prototype\<close>, \<^verbatim>\<open>syncFiles\<close> on a
  well-formed collection resolves and performs the diff. The collection is keyed by the
  path under which an entity was listed (\<^verbatim>\<open>rename\<close> does not rekey it). Afterwards the keys
  are exactly the paths of the listing's file entries, so every entity at another key is
  removed. A listed path with no entity gets a new object with that path and the reported
  metadata. A listed path with an entity keeps that very object, with \<open>lastModified\<close> and
  \<open>size\<close> as reported (kept when the entry omits them) and with \<open>content\<close>,
  \<open>originalContent\<close> and \<open>isLoading\<close> cleared, whether or not the metadata changed.
\<close>

lemma syncFiles_diff:
  assumes "wf_world w" and "listUserDataV2 a dir = Inr entries"
    and "\<forall>e\<in>set (file_entries entries). e_path e \<notin> set object_prototype_members"
  shows
    "(let w' = fst (syncFiles a dir w);
          listed = e_path ` set (file_entries entries)
      in snd (syncFiles a dir w) = None \<and>
         fst ` set (userFilesByPath w') = listed \<and>
         (\<forall>p. p \<notin> listed \<longrightarrow> map_of (userFilesByPath w') p = None) \<and>
         (\<forall>p\<in>listed.
            case map_of (userFilesByPath w) p of
              None \<Rightarrow>
                (\<exists>r. length (heap w) \<le> r \<and>
                     map_of (userFilesByPath w') p = Some r \<and>
                     heap w' ! r =
                       new_UserFile p (reported e_modified (entries_at p entries) 0)
                                      (reported e_size (entries_at p entries) 0))
            | Some r \<Rightarrow>
                map_of (userFilesByPath w') p = Some r \<and>
                heap w' ! r =
                  unload_obj ((heap w ! r)\<lparr>
                    lastModified :=
                      reported e_modified (entries_at p entries) (lastModified (heap w ! r)),
                    size_bytes :=
                      reported e_size (entries_at p entries) (size_bytes (heap w ! r)) \<rparr>)))"
proof -
  let ?w' = "fst (syncFiles a dir w)"
  let ?files = "file_entries entries"
  let ?listed = "e_path ` set ?files"
  let ?w1 = "listed_world dir entries w"
  let ?w2 = "fst (add_or_update_all syncFiles_callbacks ?files ?w1)"
  have loop: "snd (add_or_update_all syncFiles_callbacks ?files ?w1) = None"
    using assms(3) by (rule add_or_update_all_no_member)
  then have res: "snd (syncFiles a dir w) = None"
    using assms(2) by (simp add: syncFiles_def syncEntitiesV2_resolved Let_def)
  have all: "processed syncFiles_callbacks ?files ?w1 = ?files"
    using loop by (simp add: processed_all)
  have wf1: "wf_world ?w1" using assms(1) by simp
  have final: "map_of (userFilesByPath ?w') p =
      (case map_of (userFilesByPath ?w2) p of
         None \<Rightarrow> None | Some r \<Rightarrow> if p \<notin> ?listed then None else Some r)" for p
    using syncEntitiesV2_resolved_map_of [OF assms(2), of syncFiles_callbacks w p] res
    by (simp add: syncFiles_def split: option.splits)
  have gone: "map_of (userFilesByPath ?w') p = None" if "p \<notin> ?listed" for p
    using that by (simp add: final split: option.splits)
  have each: "case map_of (userFilesByPath w) p of
              None \<Rightarrow>
                (\<exists>r. length (heap w) \<le> r \<and>
                     map_of (userFilesByPath ?w') p = Some r \<and>
                     heap ?w' ! r =
                       new_UserFile p (reported e_modified (entries_at p entries) 0)
                                      (reported e_size (entries_at p entries) 0))
            | Some r \<Rightarrow>
                map_of (userFilesByPath ?w') p = Some r \<and>
                heap ?w' ! r =
                  unload_obj ((heap w ! r)\<lparr>
                    lastModified :=
                      reported e_modified (entries_at p entries) (lastModified (heap w ! r)),
                    size_bytes :=
                      reported e_size (entries_at p entries) (size_bytes (heap w ! r)) \<rparr>)"
    if listed: "p \<in> ?listed" for p
  proof (cases "map_of (userFilesByPath w) p")
    case (Some r)
    from syncFiles_existing [OF assms(1,2) res Some listed] show ?thesis using Some by simp
  next
    case None
    have nm: "p \<notin> set object_prototype_members" using listed assms(3) by auto
    obtain e0 rest where es: "entries_at p entries = e0 # rest"
      using listed by (cases "entries_at p entries") (auto simp: entries_at_def filter_empty_conv)
    then have "e0 \<in> set (entries_at p entries)" by simp
    then have p0: "e_path e0 = p" by (simp add: entries_at_def)
    have none1: "map_of (userFilesByPath ?w1) p = None" using None by simp
    have f: "filter (\<lambda>e. e_path e = p) (processed syncFiles_callbacks ?files ?w1) = e0 # rest"
      using es by (simp add: all entries_at_def)
    from all_at_new [OF wf1 none1 nm f]
    obtain r where r: "length (heap w) \<le> r" "map_of (userFilesByPath ?w2) p = Some r"
      "heap ?w2 ! r = fold (\<lambda>e f. syncFiles_update f e) rest (syncFiles_create e0)"
      by auto
    have "map_of (userFilesByPath ?w') p = Some r"
      using r(2) listed by (simp add: final)
    moreover have "heap ?w' ! r =
        new_UserFile p (reported e_modified (entries_at p entries) 0)
                       (reported e_size (entries_at p entries) 0)"
      using r(3) fold_syncFiles_update_create [OF p0, of rest] es
      by (simp add: syncFiles_def syncEntitiesV2_heap [OF assms(2)])
    ultimately show ?thesis using None r(1) by auto
  qed
  have "(map_of (userFilesByPath ?w') p \<noteq> None) = (p \<in> ?listed)" for p
  proof (cases "p \<in> ?listed")
    case False
    then show ?thesis using gone by simp
  next
    case True
    from each [OF True] show ?thesis using True
      by (cases "map_of (userFilesByPath w) p") auto
  qed
  then have "dom (map_of (userFilesByPath ?w')) = ?listed"
    unfolding dom_def by blast
  then have keys: "fst ` set (userFilesByPath ?w') = ?listed"
    by (simp add: dom_map_of_conv_image_fst)
  show ?thesis
    unfolding Let_def using res keys gone each by blast
qed

text \<open>
  The two scenarios of the specification: the collection holds \<open>d/a\<close> (with cached
  content) and \<open>d/b\<close>. A listing of \<open>d/a\<close> alone leaves exactly \<open>d/a\<close>; a listing of
  \<open>d/a\<close>, unchanged, and \<open>d/c\<close> leaves exactly \<open>d/a\<close> and \<open>d/c\<close>, and the content of
  \<open>d/a\<close> is cleared.
\<close>

lemma syncFiles_scenarios:
  "map path (userFiles (fst (syncFiles (listing_api [file_entry ''d/a'' 1 1]) ''d'' ab_world))) =
     [''d/a'']"
  "map path (userFiles
     (fst (syncFiles (listing_api [file_entry ''d/a'' 1 1, file_entry ''d/c'' 7 9]) ''d'' ab_world))) =
     [''d/a'', ''d/c'']"
  "content (heap ab_world ! 0) = Some ''cached''"
  "content (heap
     (fst (syncFiles (listing_api [file_entry ''d/a'' 1 1, file_entry ''d/c'' 7 9]) ''d'' ab_world)) ! 0) =
     None"
  "heap (fst (syncFiles (listing_api [file_entry ''d/a'' 1 1, file_entry ''d/c'' 7 9]) ''d'' ab_world)) ! 2 =
     new_UserFile ''d/c'' 9 7"
  by (simp_all add: sync_eval ab_world_def userFiles_def List.map_filter_simps)

text \<open>
  C1. The specification has \<^verbatim>\<open>sync\<close> add a new entity for every file entry with no entity
  at its path and remove every entity whose path the listing lacks, for every collection
  and every listing. For a listed file named \<open>constructor\<close> the code reads
  \<^verbatim>\<open>entityByPath['constructor']\<close>, finds the member inherited from \<^verbatim>\<open>Object.prototype\<close>,
  takes the update branch and throws a \<^verbatim>\<open>TypeError\<close> at \<^verbatim>\<open>existingFile.unload()\<close>: on
  the empty store no entity is added, and on the store holding \<open>d/a\<close> and \<open>d/b\<close> neither
  is removed.
\<close>

theorem syncFiles_inherited_name_throws:
  "snd (syncFiles constructor_listing [] empty_world) =
     Some (TypeError ''existingFile.unload is not a function'') \<and>
   userFilesByPath (fst (syncFiles constructor_listing [] empty_world)) = [] \<and>
   heap (fst (syncFiles constructor_listing [] empty_world)) = [] \<and>
   snd (syncFiles constructor_listing [] ab_world) =
     Some (TypeError ''existingFile.unload is not a function'') \<and>
   userFilesByPath (fst (syncFiles constructor_listing [] ab_world)) =
     [(''d/a'', 0), (''d/b'', 1)]"
  by (simp add: sync_eval constructor_listing_def empty_world_def ab_world_def)

section \<open>Sync: the directory set\<close>

text \<open>
  C6. After every \<^verbatim>\<open>syncFiles\<close> that resolves, \<open>userDirs\<close> is exactly the set of paths
  of the entries typed \<^verbatim>\<open>'directory'\<close> in the listing of that sync. The right-hand side
  does not mention the directories tracked before: each of them that the listing lacks is
  dropped, wherever it lies.
\<close>

theorem syncFiles_replaces_directories:
  assumes "snd (syncFiles a dir w) = None"
  shows "\<exists>entries. listUserDataV2 a dir = Inr entries \<and>
           userDirs (fst (syncFiles a dir w)) =
             e_path ` {e \<in> set entries. e_type e = ''directory''}"
proof (cases "listUserDataV2 a dir")
  case (Inl err)
  then show ?thesis using assms by (simp add: syncFiles_def syncEntitiesV2_rejected)
next
  case (Inr entries)
  then have "userDirs (fst (syncFiles a dir w)) = fold track_directory entries {}"
    unfolding syncFiles_def by (rule syncEntitiesV2_heap)
  then show ?thesis using Inr by (simp add: fold_track_directory)
qed

theorem syncFiles_replaces_directories_witness:
  "snd (syncFiles (listing_api [file_entry ''dir/file1.txt'' 100 123, dir_entry ''dir/subdir''])
          ''dir'' ab_world) = None \<and>
   userDirs ab_world = {''d/old''} \<and>
   userDirs (fst (syncFiles (listing_api [file_entry ''dir/file1.txt'' 100 123, dir_entry ''dir/subdir''])
                    ''dir'' ab_world)) = {''dir/subdir''}"
  using syncFiles_replaces_directories
    [of "listing_api [file_entry ''dir/file1.txt'' 100 123, dir_entry ''dir/subdir'']" "''dir''" ab_world]
  by (simp add: sync_eval ab_world_def)

section \<open>Sync: a failed listing\<close>

text \<open>
  C7. When the remote listing call rejects, \<^verbatim>\<open>syncFiles\<close> rejects with that error, and
  the heap (so every entity), the collection and the directory set are what they were.
\<close>

theorem syncFiles_rejects_unchanged:
  assumes "listUserDataV2 a dir = Inl err"
  shows "snd (syncFiles a dir w) = Some err \<and>
         heap (fst (syncFiles a dir w)) = heap w \<and>
         userFilesByPath (fst (syncFiles a dir w)) = userFilesByPath w \<and>
         userDirs (fst (syncFiles a dir w)) = userDirs w"
  using assms by (simp add: syncFiles_def syncEntitiesV2_rejected remote_def)

theorem syncFiles_rejects_unchanged_witness:
  "listUserDataV2 offline ''d'' = Inl (Error ''offline'') \<and>
   snd (syncFiles offline ''d'' ab_world) = Some (Error ''offline'') \<and>
   heap (fst (syncFiles offline ''d'' ab_world)) = heap ab_world \<and>
   userFilesByPath (fst (syncFiles offline ''d'' ab_world)) = [(''d/a'', 0), (''d/b'', 1)] \<and>
   userDirs (fst (syncFiles offline ''d'' ab_world)) = {''d/old''}"
  using syncFiles_rejects_unchanged [of offline "''d''" "Error ''offline''" ab_world]
  by (simp add: offline_def ab_world_def)

section \<open>Sync: entities it creates\<close>

text \<open>
  C10, as stated, fails on a listing entry that reports the size \<open>-1\<close>: the entity created
  from it has \<open>size = -1\<close>, which is what \<open>isTemporary\<close> tests.
\<close>

theorem syncFiles_reported_size_minus_one_is_temporary:
  "map_of (userFilesByPath (fst (syncFiles (listing_api [file_entry ''x'' (- 1) 5]) [] empty_world)))
     ''x'' = Some 0 \<and>
   isTemporary (heap (fst (syncFiles (listing_api [file_entry ''x'' (- 1) 5]) [] empty_world)) ! 0) \<and>
   \<not> isPersisted (heap (fst (syncFiles (listing_api [file_entry ''x'' (- 1) 5]) [] empty_world)) ! 0)"
  by (simp add: sync_eval empty_world_def isTemporary_def isPersisted_def)

text \<open>
  C10, amended. Every entity that \<^verbatim>\<open>syncFiles\<close> creates for a path none of whose listing
  entries reports the size \<open>-1\<close> is persisted, not temporary; when the entries omit the
  size, the entity has size \<open>0\<close>, and when they omit the modification time, it has
  \<open>lastModified = 0\<close>.
\<close>

theorem syncFiles_created_persisted:
  assumes "wf_world w" and "listUserDataV2 a dir = Inr entries"
    and "map_of (userFilesByPath w) p = None"
    and "map_of (userFilesByPath (fst (syncFiles a dir w))) p = Some r"
    and "\<forall>e\<in>set (entries_at p entries). e_size e \<noteq> Some (- 1)"
  shows "isPersisted (heap (fst (syncFiles a dir w)) ! r) \<and>
         \<not> isTemporary (heap (fst (syncFiles a dir w)) ! r) \<and>
         ((\<forall>e\<in>set (entries_at p entries). e_size e = None) \<longrightarrow>
            size_bytes (heap (fst (syncFiles a dir w)) ! r) = 0) \<and>
         ((\<forall>e\<in>set (entries_at p entries). e_modified e = None) \<longrightarrow>
            lastModified (heap (fst (syncFiles a dir w)) ! r) = 0)"
proof -
  from syncFiles_created [OF assms(1-4)] obtain es where
    sub: "set es \<subseteq> set (entries_at p entries)"
    and obj: "heap (fst (syncFiles a dir w)) ! r =
      new_UserFile p (reported e_modified es 0) (reported e_size es 0)"
    by blast
  have "\<forall>e\<in>set es. e_size e \<noteq> Some (- 1)" using assms(5) sub by blast
  then have "reported e_size es 0 \<noteq> - 1" by (intro reported_neq) simp_all
  moreover have "reported e_size es 0 = 0" if "\<forall>e\<in>set (entries_at p entries). e_size e = None"
    using that sub by (intro reported_all_None) blast
  moreover have "reported e_modified es 0 = 0"
    if "\<forall>e\<in>set (entries_at p entries). e_modified e = None"
    using that sub by (intro reported_all_None) blast
  ultimately show ?thesis
    using obj by (simp add: isPersisted_def isTemporary_def)
qed

theorem syncFiles_created_persisted_witness:
  "wf_world empty_world \<and>
   map_of (userFilesByPath empty_world) ''d/n'' = None \<and>
   map_of (userFilesByPath (fst (syncFiles (listing_api [bare_entry ''d/n'']) ''d'' empty_world)))
     ''d/n'' = Some 0 \<and>
   entries_at ''d/n'' [bare_entry ''d/n''] = [bare_entry ''d/n''] \<and>
   e_size (bare_entry ''d/n'') = None \<and>
   isPersisted (heap (fst (syncFiles (listing_api [bare_entry ''d/n'']) ''d'' empty_world)) ! 0) \<and>
   size_bytes (heap (fst (syncFiles (listing_api [bare_entry ''d/n'']) ''d'' empty_world)) ! 0) = 0 \<and>
   lastModified (heap (fst (syncFiles (listing_api [bare_entry ''d/n'']) ''d'' empty_world)) ! 0) = 0"
  using syncFiles_created_persisted
    [of empty_world "listing_api [bare_entry ''d/n'']" "''d''" "[bare_entry ''d/n'']" "''d/n''" 0]
  by (simp add: sync_eval empty_world_def wf_world_def isTemporary_def isPersisted_def
      entries_at_def file_entries_def)

end
